theory Spec2Isabelle
  imports Complex_Main "HOL-Library.AList"
begin

section \<open>Tables\<close>

text \<open>
  The three pandas tables of \<^verbatim>\<open>optimization.py\<close> are lists of rows, in table order.
  Only the columns the optimisation reads are kept. Facility identifiers are strings
  (\<^verbatim>\<open>'01.1.1.PZ'\<close>), consignment identifiers are integers. Python floats are modelled as
  exact reals. The column names of the three tables overlap in the source; here each is
  prefixed by its table, since record fields share one name space.
\<close>

type_synonym facility = string

record clock =
  hour :: nat
  minute :: nat

record source_row =
  src_id :: int
  src_Origin_ID :: facility
  src_Destination_ID :: facility
  src_planned_end_of_loading :: clock
  src_Consignment_quantity :: real

text \<open>
  The destination table holds clock times in \<^verbatim>\<open>'Start of shift'\<close> and
  \<^verbatim>\<open>'End of lay-on'\<close> until \<^verbatim>\<open>normalize_shift_times\<close> has replaced them by hours.
\<close>

record raw_destination_row =
  raw_Destination_ID :: facility
  raw_Start_of_shift :: clock
  raw_End_of_lay_on :: clock
  raw_Sorting_capacity :: real

record destination_row =
  dst_Destination_ID :: facility
  dst_Start_of_shift :: real
  dst_End_of_lay_on :: real
  dst_Sorting_capacity :: real

record trucking_row =
  trk_Origin_ID :: facility
  trk_Destination_ID :: facility
  trk_OSRM_time :: real

text \<open>A \<^verbatim>\<open>datetime.time\<close> has its hour below 24 and its minute below 60.\<close>

definition valid_clock :: "clock \<Rightarrow> bool" where
  "valid_clock c \<longleftrightarrow> hour c < 24 \<and> minute c < 60"

subsection \<open>\<^verbatim>\<open>normalize\<close>\<close>

definition clock_hours :: "clock \<Rightarrow> real" where
  "clock_hours c = real (hour c) + real (minute c) / 60"

definition normalize :: "raw_destination_row \<Rightarrow> real \<times> real" where
  "normalize row =
     (let start_hour = clock_hours (raw_Start_of_shift row);
          end_hour = clock_hours (raw_End_of_lay_on row)
      in if end_hour < start_hour then (start_hour, end_hour + 24)
         else (start_hour, end_hour))"

text \<open>A row of the destination table once \<^verbatim>\<open>normalize\<close> has been stored in its shift columns.\<close>

definition normalize_row :: "raw_destination_row \<Rightarrow> destination_row" where
  "normalize_row row =
     \<lparr>dst_Destination_ID = raw_Destination_ID row,
      dst_Start_of_shift = fst (normalize row),
      dst_End_of_lay_on = snd (normalize row),
      dst_Sorting_capacity = raw_Sorting_capacity row\<rparr>"

section \<open>Python failures\<close>

text \<open>
  A statement that raises ends the method; the exceptions the program can meet are values.
  A lookup \<^verbatim>\<open>d[k]\<close> of a missing key is a \<^verbatim>\<open>KeyError\<close>, \<^verbatim>\<open>.values[0]\<close> of an empty
  selection is an \<^verbatim>\<open>IndexError\<close>, iterating \<^verbatim>\<open>None\<close> is a \<^verbatim>\<open>TypeError\<close>, assigning a
  frame of another width to two columns is a \<^verbatim>\<open>ValueError\<close>.
\<close>

datatype py_error =
  TypeError | KeyError | IndexError | UnboundLocalError | AttributeError | GurobiError |
  ValueError

definition and_then :: "'e + 'a \<Rightarrow> ('a \<Rightarrow> 'e + 'b) \<Rightarrow> 'e + 'b" where
  "and_then r f = (case r of Inl e \<Rightarrow> Inl e | Inr x \<Rightarrow> f x)"

definition lookup :: "('k \<rightharpoonup> 'v) \<Rightarrow> 'k \<Rightarrow> py_error + 'v" where
  "lookup d k = (case d k of None \<Rightarrow> Inl KeyError | Some v \<Rightarrow> Inr v)"

definition values0 :: "'a list \<Rightarrow> py_error + 'a" where
  "values0 xs = (case xs of [] \<Rightarrow> Inl IndexError | x # _ \<Rightarrow> Inr x)"

definition iterable :: "'a list option \<Rightarrow> py_error + 'a list" where
  "iterable xs = (case xs of None \<Rightarrow> Inl TypeError | Some ys \<Rightarrow> Inr ys)"

text \<open>An exception raised inside a method leaves the object as it is at that moment.\<close>

definition raising :: "'s \<Rightarrow> py_error + 'a \<Rightarrow> (py_error \<times> 's) + 'a" where
  "raising s r = (case r of Inl e \<Rightarrow> Inl (e, s) | Inr x \<Rightarrow> Inr x)"

text \<open>
  A generator expression evaluated from left to right: the terms each element yields, in
  order, or the first exception.
\<close>

fun collect :: "('a \<Rightarrow> py_error + 'b list) \<Rightarrow> 'a list \<Rightarrow> py_error + 'b list" where
  "collect f [] = Inr []"
| "collect f (x # xs) =
     and_then (f x) (\<lambda>ys. and_then (collect f xs) (\<lambda>zs. Inr (ys @ zs)))"

subsection \<open>\<^verbatim>\<open>normalize_shift_times\<close>\<close>

text \<open>
  Line 59 applies \<^verbatim>\<open>normalize\<close> to every row and assigns the result to the two shift
  columns. On a table with rows the result has the two columns of the pairs, and every
  row gets its pair. On a table without rows \<^verbatim>\<open>apply\<close> returns the table itself, with
  all its columns, and the assignment raises \<^verbatim>\<open>ValueError\<close> (columns must be same length
  as key); the table is left as it was. The second statement parses
  \<^verbatim>\<open>planned_end_of_loading\<close> into timestamps; the source rows here hold them parsed
  already.
\<close>

definition normalize_shift_times ::
  "raw_destination_row list \<Rightarrow> py_error + destination_row list" where
  "normalize_shift_times df = (if df = [] then Inl ValueError else Inr (map normalize_row df))"

section \<open>The Gurobi model\<close>

text \<open>
  The solver is not part of the program; what the program hands to it is data. A model is
  the list of its variables, in creation order, the list of its constraints and its
  objective. \<^verbatim>\<open>addVar\<close> returns a handle to the new variable: its position in the list.
  The name \<^verbatim>\<open>f"X_{i}_{j}_{k}_{l}"\<close> of a variable is kept as its parts.
\<close>

datatype vtype = BINARY | INTEGER | CONTINUOUS

datatype var_name =
    X_name facility facility int nat
  | Z_name nat
  | T_name nat
  | ArrivalTime_name nat
  | ArrivalDayBinary_name nat nat
  | multiplier_name facility facility int nat

record gvar =
  vtype :: vtype
  lb :: real
  ub :: "real option"
  vname :: var_name

datatype expr =
    Const real
  | Var nat
  | Add expr expr
  | Sub expr expr
  | Mul expr expr
  | quicksum "expr list"

datatype sense = LE | GE | EQ

datatype constr_name = SortingCapacity facility nat | Assigning_Arrival_Day

datatype constr = Constr expr sense expr "constr_name option"

record gmodel =
  vars :: "gvar list"
  constrs :: "constr list"
  objective :: "expr option"

definition Model :: gmodel where
  "Model = \<lparr>vars = [], constrs = [], objective = None\<rparr>"

text \<open>\<^verbatim>\<open>lb\<close> defaults to 0 and \<^verbatim>\<open>ub\<close> to infinity (\<open>None\<close>) in \<^verbatim>\<open>addVar\<close>.\<close>

definition addVar :: "gmodel \<Rightarrow> vtype \<Rightarrow> real \<Rightarrow> real option \<Rightarrow> var_name \<Rightarrow> gmodel \<times> nat" where
  "addVar m t l u n =
     (m\<lparr>vars := vars m @ [\<lparr>vtype = t, lb = l, ub = u, vname = n\<rparr>]\<rparr>, length (vars m))"

definition addConstr :: "gmodel \<Rightarrow> constr \<Rightarrow> gmodel" where
  "addConstr m c = m\<lparr>constrs := constrs m @ [c]\<rparr>"

definition setObjective :: "gmodel \<Rightarrow> expr \<Rightarrow> gmodel" where
  "setObjective m e = m\<lparr>objective := Some e\<rparr>"

subsection \<open>Solutions\<close>

text \<open>
  A solution gives every variable a value. It is feasible when every variable lies within
  its bounds and its type, and every constraint holds.
\<close>

fun eval_expr :: "(nat \<Rightarrow> real) \<Rightarrow> expr \<Rightarrow> real" where
  "eval_expr v (Const c) = c"
| "eval_expr v (Var h) = v h"
| "eval_expr v (Add a b) = eval_expr v a + eval_expr v b"
| "eval_expr v (Sub a b) = eval_expr v a - eval_expr v b"
| "eval_expr v (Mul a b) = eval_expr v a * eval_expr v b"
| "eval_expr v (quicksum es) = sum_list (map (eval_expr v) es)"

fun holds :: "(nat \<Rightarrow> real) \<Rightarrow> constr \<Rightarrow> bool" where
  "holds v (Constr a LE b n) \<longleftrightarrow> eval_expr v a \<le> eval_expr v b"
| "holds v (Constr a GE b n) \<longleftrightarrow> eval_expr v a \<ge> eval_expr v b"
| "holds v (Constr a EQ b n) \<longleftrightarrow> eval_expr v a = eval_expr v b"

definition in_domain :: "gvar \<Rightarrow> real \<Rightarrow> bool" where
  "in_domain g x \<longleftrightarrow>
     lb g \<le> x \<and> (case ub g of None \<Rightarrow> True | Some u \<Rightarrow> x \<le> u) \<and>
     (case vtype g of BINARY \<Rightarrow> x = 0 \<or> x = 1 | INTEGER \<Rightarrow> x \<in> \<int> | CONTINUOUS \<Rightarrow> True)"

definition feasible :: "gmodel \<Rightarrow> (nat \<Rightarrow> real) \<Rightarrow> bool" where
  "feasible m v \<longleftrightarrow>
     (\<forall>h < length (vars m). in_domain (vars m ! h) (v h)) \<and>
     (\<forall>c \<in> set (constrs m). holds v c)"

section \<open>The optimizer object\<close>

text \<open>
  The attributes of \<^verbatim>\<open>DHL_Optimization\<close>. The list attributes are \<^verbatim>\<open>None\<close> until
  \<^verbatim>\<open>initialize_model\<close> assigns them. \<^verbatim>\<open>X\<close> keeps its insertion order, which
  \<^verbatim>\<open>solve\<close> iterates. \<^verbatim>\<open>ArrivalTime\<close> holds variables first and linear expressions
  after \<^verbatim>\<open>add_constraints\<close>. The destination table is the normalised one: every caller
  (\<^verbatim>\<open>main\<close>, the test fixture) assigns the tables and calls \<^verbatim>\<open>normalize_shift_times\<close>
  before any other method.
\<close>

type_synonym combination = "facility \<times> facility \<times> int"

text \<open>\<^verbatim>\<open>range(300)\<close>: the trucks.\<close>

definition range_300 :: "nat list" where
  "range_300 = [0..<300]"

record dhl =
  source_df :: "source_row list"
  destination_df :: "destination_row list"
  trucking_df :: "trucking_row list"
  model :: gmodel
  source_list :: "facility list option"
  destination_list :: "facility list option"
  routes_list :: "(facility \<times> facility) list option"
  consignment_list :: "int list option"
  valid_combinations :: "combination list option"
  trucks :: "nat list"
  X :: "((facility \<times> facility \<times> int \<times> nat) \<times> nat) list"
  Z :: "nat \<rightharpoonup> nat"
  T :: "nat \<rightharpoonup> nat"
  ArrivalDay :: "nat \<rightharpoonup> nat"
  ArrivalTime :: "nat \<rightharpoonup> expr"
  ArrivalDayBinary :: "nat \<times> nat \<rightharpoonup> nat"

text \<open>
  \<^verbatim>\<open>__init__\<close>, followed by the assignment of the three tables (lines 45 to 50 of
  \<^verbatim>\<open>optimization_main.py\<close>). The destination table is held by its rows with the shift
  columns in hours, as \<^verbatim>\<open>normalize_shift_times\<close> leaves them; a table without rows is the
  same list before and after.
\<close>

definition DHL_Optimization ::
  "source_row list \<Rightarrow> destination_row list \<Rightarrow> trucking_row list \<Rightarrow> dhl" where
  "DHL_Optimization src df trk =
     \<lparr>source_df = src, destination_df = df, trucking_df = trk,
      model = Model, source_list = None, destination_list = None, routes_list = None,
      consignment_list = None, valid_combinations = None, trucks = range_300,
      X = [], Z = Map.empty, T = Map.empty, ArrivalDay = Map.empty,
      ArrivalTime = Map.empty, ArrivalDayBinary = Map.empty\<rparr>"

subsection \<open>Table lookups\<close>

definition route_ids :: "source_row list \<Rightarrow> facility \<Rightarrow> facility \<Rightarrow> int list" where
  "route_ids df i j =
     map src_id (filter (\<lambda>r. src_Origin_ID r = i \<and> src_Destination_ID r = j) df)"

definition release_time :: "source_row list \<Rightarrow> int \<Rightarrow> py_error + nat" where
  "release_time df k =
     values0 (map (\<lambda>r. hour (src_planned_end_of_loading r)) (filter (\<lambda>r. src_id r = k) df))"

definition quantity :: "source_row list \<Rightarrow> int \<Rightarrow> py_error + real" where
  "quantity df k = values0 (map src_Consignment_quantity (filter (\<lambda>r. src_id r = k) df))"

definition start_shift :: "destination_row list \<Rightarrow> facility \<Rightarrow> py_error + real" where
  "start_shift df j =
     values0 (map dst_Start_of_shift (filter (\<lambda>r. dst_Destination_ID r = j) df))"

definition end_shift :: "destination_row list \<Rightarrow> facility \<Rightarrow> py_error + real" where
  "end_shift df j =
     values0 (map dst_End_of_lay_on (filter (\<lambda>r. dst_Destination_ID r = j) df))"

definition sorting_capacity :: "destination_row list \<Rightarrow> facility \<Rightarrow> py_error + real" where
  "sorting_capacity df j =
     values0 (map dst_Sorting_capacity (filter (\<lambda>r. dst_Destination_ID r = j) df))"

definition travel_time :: "trucking_row list \<Rightarrow> facility \<Rightarrow> facility \<Rightarrow> py_error + real" where
  "travel_time df i j =
     and_then
       (values0 (map trk_OSRM_time
          (filter (\<lambda>r. trk_Origin_ID r = i \<and> trk_Destination_ID r = j) df)))
       (\<lambda>t. Inr (t / 3600))"

subsection \<open>\<^verbatim>\<open>initialize_model\<close>\<close>

text \<open>\<^verbatim>\<open>range(1, 7)\<close>: the maximum number of days to consider.\<close>

definition days :: "nat list" where
  "days = [1..<7]"

definition X_keys :: "combination list \<Rightarrow> nat list \<Rightarrow> (facility \<times> facility \<times> int \<times> nat) list" where
  "X_keys vc ls = [(i, j, k, l). (i, j, k) \<leftarrow> vc, l \<leftarrow> ls]"

definition add_X_var :: "dhl \<Rightarrow> facility \<times> facility \<times> int \<times> nat \<Rightarrow> dhl" where
  "add_X_var s key =
     (case key of (i, j, k, l) \<Rightarrow>
        (case addVar (model s) BINARY 0 None (X_name i j k l) of (m, h) \<Rightarrow>
           s\<lparr>model := m, X := AList.update (i, j, k, l) h (X s)\<rparr>))"

definition add_day_var :: "nat \<Rightarrow> dhl \<Rightarrow> nat \<Rightarrow> dhl" where
  "add_day_var l s d =
     (case addVar (model s) BINARY 0 None (ArrivalDayBinary_name l d) of (m, h) \<Rightarrow>
        s\<lparr>model := m, ArrivalDayBinary := (ArrivalDayBinary s)((l, d) \<mapsto> h)\<rparr>)"

definition add_truck_vars :: "dhl \<Rightarrow> nat \<Rightarrow> dhl" where
  "add_truck_vars s l =
     (case addVar (model s) BINARY 0 None (Z_name l) of (m1, z) \<Rightarrow>
      case addVar m1 CONTINUOUS 0 None (T_name l) of (m2, t) \<Rightarrow>
      case addVar m2 CONTINUOUS 0 (Some 24) (ArrivalTime_name l) of (m3, a) \<Rightarrow>
        foldl (add_day_var l)
          (s\<lparr>model := m3, Z := (Z s)(l \<mapsto> z), T := (T s)(l \<mapsto> t),
             ArrivalTime := (ArrivalTime s)(l \<mapsto> Var a)\<rparr>)
          days)"

definition objective_expr ::
  "(nat \<rightharpoonup> nat) \<Rightarrow> (nat \<times> nat \<rightharpoonup> nat) \<Rightarrow> nat list \<Rightarrow> py_error + expr" where
  "objective_expr Zd Ad ls =
     and_then
       (collect (\<lambda>l.
          and_then (lookup Zd l) (\<lambda>z.
          and_then
            (collect (\<lambda>d. and_then (lookup Ad (l, d))
               (\<lambda>a. Inr [Mul (Const (real d)) (Var a)])) days)
            (\<lambda>ds. Inr [Mul (Var z) (quicksum ds)]))) ls)
       (\<lambda>ts. Inr (quicksum ts))"

text \<open>The three comprehensions at the head of \<^verbatim>\<open>initialize_model\<close>.\<close>

definition routes :: "facility list \<Rightarrow> facility list \<Rightarrow> (facility \<times> facility) list" where
  "routes sl dl = [(i, j). i \<leftarrow> sl, j \<leftarrow> dl, i \<noteq> j]"

definition consignments :: "source_row list \<Rightarrow> (facility \<times> facility) list \<Rightarrow> int list" where
  "consignments df rl = [x. (i, j) \<leftarrow> rl, x \<leftarrow> route_ids df i j]"

definition combinations ::
  "source_row list \<Rightarrow> (facility \<times> facility) list \<Rightarrow> int list \<Rightarrow> combination list" where
  "combinations df rl cl = [(i, j, k). (i, j) \<leftarrow> rl, k \<leftarrow> cl, k \<in> set (route_ids df i j)]"

definition initialize_model :: "dhl \<Rightarrow> facility list \<Rightarrow> facility \<Rightarrow> (py_error \<times> dhl) + dhl" where
  "initialize_model s selected_sources selected_destination =
     (let rl = routes selected_sources [selected_destination];
          cl = consignments (source_df s) rl;
          vc = combinations (source_df s) rl cl;
          s1 = s\<lparr>source_list := Some selected_sources,
                 destination_list := Some [selected_destination],
                 routes_list := Some rl, consignment_list := Some cl,
                 valid_combinations := Some vc, trucks := range_300\<rparr>;
          s2 = foldl add_X_var s1 (X_keys vc (trucks s1));
          s3 = foldl add_truck_vars s2 (trucks s2)
      in case objective_expr (Z s3) (ArrivalDayBinary s3) (trucks s3) of
           Inl e \<Rightarrow> Inl (e, s3)
         | Inr obj \<Rightarrow> Inr (s3\<lparr>model := setObjective (model s3) obj\<rparr>))"

subsection \<open>\<^verbatim>\<open>add_constraints\<close>\<close>

text \<open>A \<^verbatim>\<open>for\<close> loop whose body updates the object or raises.\<close>

fun for_each ::
  "('a \<Rightarrow> dhl \<Rightarrow> (py_error \<times> dhl) + dhl) \<Rightarrow> 'a list \<Rightarrow> dhl \<Rightarrow> (py_error \<times> dhl) + dhl" where
  "for_each body [] s = Inr s"
| "for_each body (x # xs) s = and_then (body x s) (for_each body xs)"

definition add_to_model :: "dhl \<Rightarrow> constr \<Rightarrow> dhl" where
  "add_to_model s c = s\<lparr>model := addConstr (model s) c\<rparr>"

text \<open>1. Each truck can carry at most 2 consignments.\<close>

definition capacity_constr :: "dhl \<Rightarrow> nat \<Rightarrow> py_error + constr" where
  "capacity_constr s l =
     and_then (iterable (valid_combinations s)) (\<lambda>vc.
     and_then (collect (\<lambda>(i, j, k).
        and_then (lookup (map_of (X s)) (i, j, k, l)) (\<lambda>x. Inr [Var x])) vc) (\<lambda>xs.
     and_then (lookup (Z s) l) (\<lambda>z.
     Inr (Constr (quicksum xs) LE (Mul (Const 2) (Var z)) None))))"

definition capacity_constraints :: "dhl \<Rightarrow> (py_error \<times> dhl) + dhl" where
  "capacity_constraints s =
     for_each (\<lambda>l s. and_then (raising s (capacity_constr s l))
        (\<lambda>c. Inr (add_to_model s c))) (trucks s) s"

text \<open>2. Consignment can only be released after its release time.\<close>

definition release_constr :: "dhl \<Rightarrow> combination \<Rightarrow> nat \<Rightarrow> nat \<Rightarrow> py_error + constr" where
  "release_constr s c release l =
     (case c of (i, j, k) \<Rightarrow>
        and_then (lookup (T s) l) (\<lambda>t.
        and_then (lookup (map_of (X s)) (i, j, k, l)) (\<lambda>x.
        Inr (Constr (Var t) GE (Mul (Const (real release)) (Var x)) None))))"

definition release_constraints :: "dhl \<Rightarrow> (py_error \<times> dhl) + dhl" where
  "release_constraints s =
     and_then (raising s (iterable (valid_combinations s))) (\<lambda>vc.
       for_each (\<lambda>c s.
          and_then (raising s (release_time (source_df s) (snd (snd c)))) (\<lambda>release.
            for_each (\<lambda>l s. and_then (raising s (release_constr s c release l))
               (\<lambda>c. Inr (add_to_model s c))) (trucks s) s)) vc s)"

text \<open>3. Truck must arrive at the destination within the operational hours.\<close>

definition arrival_terms :: "dhl \<Rightarrow> combination \<Rightarrow> real \<Rightarrow> nat \<Rightarrow> py_error + expr" where
  "arrival_terms s c tt l =
     (case c of (i, j, k) \<Rightarrow>
        and_then (lookup (T s) l) (\<lambda>t.
        and_then (lookup (map_of (X s)) (i, j, k, l)) (\<lambda>x.
        and_then (collect (\<lambda>d. and_then (lookup (ArrivalDayBinary s) (l, d))
           (\<lambda>a. Inr [Mul (Const (real (d - 1))) (Var a)])) days) (\<lambda>ds.
        Inr (Add (Add (Var t) (Mul (Const tt) (Var x))) (Mul (Const 24) (quicksum ds)))))))"

definition window_step ::
  "combination \<Rightarrow> real \<Rightarrow> real \<Rightarrow> real \<Rightarrow> nat \<Rightarrow> dhl \<Rightarrow> (py_error \<times> dhl) + dhl" where
  "window_step c start_sh end_sh tt l s =
     (case c of (i, j, k) \<Rightarrow>
        and_then (raising s (arrival_terms s c tt l)) (\<lambda>terms.
          case addVar (model s) INTEGER 0 None (multiplier_name i j k l) of (m, h) \<Rightarrow>
            let arrival = Sub terms (Mul (Const 24) (Var h));
                s1 = s\<lparr>model := m, ArrivalTime := (ArrivalTime s)(l \<mapsto> arrival)\<rparr>;
                s2 = add_to_model s1 (Constr arrival GE (Const start_sh) None)
            in Inr (add_to_model s2 (Constr arrival LE (Const end_sh) None))))"

definition window_constraints :: "dhl \<Rightarrow> (py_error \<times> dhl) + dhl" where
  "window_constraints s =
     and_then (raising s (iterable (valid_combinations s))) (\<lambda>vc.
       for_each (\<lambda>c s.
          and_then (raising s (start_shift (destination_df s) (fst (snd c)))) (\<lambda>start_sh.
          and_then (raising s (end_shift (destination_df s) (fst (snd c)))) (\<lambda>end_sh.
          and_then (raising s (travel_time (trucking_df s) (fst c) (fst (snd c)))) (\<lambda>tt.
            for_each (window_step c start_sh end_sh tt) (trucks s) s)))) vc s)"

text \<open>4. Each consignment must be assigned to exactly one truck.\<close>

definition assignment_constr :: "dhl \<Rightarrow> combination \<Rightarrow> py_error + constr" where
  "assignment_constr s c =
     (case c of (i, j, k) \<Rightarrow>
        and_then (collect (\<lambda>l.
           and_then (iterable (valid_combinations s)) (\<lambda>vc.
             if (i, j, k) \<in> set vc then
               and_then (lookup (map_of (X s)) (i, j, k, l)) (\<lambda>x.
               and_then (lookup (Z s) l) (\<lambda>z. Inr [Mul (Var x) (Var z)]))
             else Inr [])) (trucks s)) (\<lambda>ts.
        Inr (Constr (quicksum ts) EQ (Const 1) None)))"

definition assignment_constraints :: "dhl \<Rightarrow> (py_error \<times> dhl) + dhl" where
  "assignment_constraints s =
     and_then (raising s (iterable (valid_combinations s))) (\<lambda>vc.
       for_each (\<lambda>c s. and_then (raising s (assignment_constr s c))
          (\<lambda>c. Inr (add_to_model s c))) vc s)"

text \<open>5. Sorting capacity constraint for each truck arriving at a package center.\<close>

definition sorting_terms :: "dhl \<Rightarrow> facility \<Rightarrow> nat \<Rightarrow> py_error + expr list" where
  "sorting_terms s j d =
     and_then (iterable (source_list s)) (\<lambda>sl.
       collect (\<lambda>i.
         if j \<noteq> i then
           and_then (iterable (consignment_list s)) (\<lambda>cl.
             collect (\<lambda>k.
               collect (\<lambda>l.
                 and_then (iterable (valid_combinations s)) (\<lambda>vc.
                   if (i, j, k) \<in> set vc then
                     and_then (lookup (map_of (X s)) (i, j, k, l)) (\<lambda>x.
                     and_then (quantity (source_df s) k) (\<lambda>q.
                     and_then (lookup (ArrivalDayBinary s) (l, d)) (\<lambda>a.
                     Inr [Mul (Mul (Var x) (Const q)) (Var a)])))
                   else Inr [])) (trucks s)) cl)
         else Inr []) sl)"

definition sorting_constr :: "dhl \<Rightarrow> facility \<Rightarrow> real \<Rightarrow> nat \<Rightarrow> py_error + constr" where
  "sorting_constr s j sorting_capacity_per_day d =
     and_then (sorting_terms s j d) (\<lambda>ts.
       Inr (Constr (quicksum ts) LE (Const sorting_capacity_per_day)
              (Some (SortingCapacity j d))))"

definition sorting_constraints :: "dhl \<Rightarrow> (py_error \<times> dhl) + dhl" where
  "sorting_constraints s =
     and_then (raising s (iterable (destination_list s))) (\<lambda>dl.
       for_each (\<lambda>j s.
          and_then (raising s (end_shift (destination_df s) j)) (\<lambda>end_sh.
          and_then (raising s (start_shift (destination_df s) j)) (\<lambda>start_sh.
          and_then (raising s (sorting_capacity (destination_df s) j)) (\<lambda>cap.
            for_each (\<lambda>d s.
               and_then (raising s (sorting_constr s j ((end_sh - start_sh) / 2 * cap) d))
                 (\<lambda>c. Inr (add_to_model s c))) days s)))) dl s)"

text \<open>6. Assigning arrival day to each used truck.\<close>

definition arrival_day_constr :: "dhl \<Rightarrow> nat \<Rightarrow> py_error + constr" where
  "arrival_day_constr s l =
     and_then (collect (\<lambda>d.
        and_then (lookup (ArrivalDayBinary s) (l, d)) (\<lambda>a.
        and_then (lookup (Z s) l) (\<lambda>z. Inr [Mul (Var a) (Var z)]))) days) (\<lambda>ts.
     Inr (Constr (quicksum ts) EQ (Const 1) (Some Assigning_Arrival_Day)))"

definition arrival_day_constraints :: "dhl \<Rightarrow> (py_error \<times> dhl) + dhl" where
  "arrival_day_constraints s =
     for_each (\<lambda>l s. and_then (raising s (arrival_day_constr s l))
        (\<lambda>c. Inr (add_to_model s c))) (trucks s) s"

definition add_constraints :: "dhl \<Rightarrow> (py_error \<times> dhl) + dhl" where
  "add_constraints s =
     and_then (capacity_constraints s) (\<lambda>s.
     and_then (release_constraints s) (\<lambda>s.
     and_then (window_constraints s) (\<lambda>s.
     and_then (assignment_constraints s) (\<lambda>s.
     and_then (sorting_constraints s) arrival_day_constraints))))"

text \<open>
  The build of \<^verbatim>\<open>main\<close>: a new object with its tables, \<^verbatim>\<open>normalize_shift_times\<close>,
  \<^verbatim>\<open>initialize_model\<close>, then \<^verbatim>\<open>add_constraints\<close>. \<^verbatim>\<open>normalize_shift_times\<close> raises only
  on a destination table without rows, so the object it leaves at that moment is the new
  object with that table: no variable and no constraint exists yet.
\<close>

definition build ::
  "source_row list \<Rightarrow> raw_destination_row list \<Rightarrow> trucking_row list \<Rightarrow>
   facility list \<Rightarrow> facility \<Rightarrow> (py_error \<times> dhl) + dhl" where
  "build src dst trk selected_sources selected_destination =
     and_then (raising (DHL_Optimization src [] trk) (normalize_shift_times dst)) (\<lambda>df.
     and_then (initialize_model (DHL_Optimization src df trk) selected_sources
       selected_destination) add_constraints)"

text \<open>The last two calls on an object that exists already.\<close>

definition build_again :: "dhl \<Rightarrow> facility list \<Rightarrow> facility \<Rightarrow> (py_error \<times> dhl) + dhl" where
  "build_again s selected_sources selected_destination =
     and_then (initialize_model s selected_sources selected_destination) add_constraints"

subsection \<open>\<^verbatim>\<open>solve\<close>\<close>

text \<open>
  \<^verbatim>\<open>model.optimize()\<close> is the solver's: it raises, or it leaves a status and, when it
  found one, a solution, whose values the attribute \<^verbatim>\<open>.X\<close> of a variable reads. The
  time limit of 300 seconds is a parameter of that call. \<^verbatim>\<open>solve\<close> returns the table it
  writes to \<^verbatim>\<open>output/output.csv\<close> and hands to \<^verbatim>\<open>st.dataframe\<close>; the prints and the
  file are not modelled.
\<close>

datatype status =
    LOADED | OPTIMAL | INFEASIBLE | INF_OR_UNBD | UNBOUNDED | CUTOFF | ITERATION_LIMIT
  | NODE_LIMIT | TIME_LIMIT | SOLUTION_LIMIT | INTERRUPTED | NUMERIC | SUBOPTIMAL
  | INPROGRESS | USER_OBJ_LIMIT | WORK_LIMIT | MEM_LIMIT

datatype optimize_result = Optimize_raises | Optimize_returns status "(nat \<Rightarrow> real) option"

record output_row =
  Origin :: facility
  Destination :: facility
  Consignment_ID :: int
  Truck_Id :: nat
  Departure_time :: real
  Arrival_Day :: real
  Destination_Start_Shift :: real
  Destination_End_Shift :: real
  Travel_Time :: real

definition dot_X :: "(nat \<Rightarrow> real) option \<Rightarrow> nat \<Rightarrow> py_error + real" where
  "dot_X sol h = (case sol of None \<Rightarrow> Inl AttributeError | Some v \<Rightarrow> Inr (v h))"

definition output_rows ::
  "dhl \<Rightarrow> (nat \<Rightarrow> real) option \<Rightarrow> facility \<times> facility \<times> int \<times> nat \<Rightarrow>
   py_error + output_row list" where
  "output_rows s sol key =
     (case key of (i, j, k, l) \<Rightarrow>
        and_then (lookup (Z s) l) (\<lambda>z.
        and_then (dot_X sol z) (\<lambda>zv.
        and_then (if zv = 1
                  then and_then (lookup (map_of (X s)) (i, j, k, l)) (\<lambda>x.
                       and_then (dot_X sol x) (\<lambda>xv. Inr (xv = 1)))
                  else Inr False) (\<lambda>chosen.
        if chosen then
          and_then (start_shift (destination_df s) j) (\<lambda>start_sh.
          and_then (end_shift (destination_df s) j) (\<lambda>end_sh.
          and_then (travel_time (trucking_df s) i j) (\<lambda>tt.
          and_then (collect (\<lambda>d.
             and_then (lookup (ArrivalDayBinary s) (l, d)) (\<lambda>a.
             and_then (dot_X sol a) (\<lambda>av. Inr [real d * av]))) days) (\<lambda>ds.
          and_then (lookup (T s) l) (\<lambda>t.
          and_then (dot_X sol t) (\<lambda>tv.
          Inr [\<lparr>Origin = i, Destination = j, Consignment_ID = k, Truck_Id = l,
                Departure_time = tv, Arrival_Day = sum_list ds,
                Destination_Start_Shift = start_sh, Destination_End_Shift = end_sh,
                Travel_Time = tt\<rparr>]))))))
        else Inr []))))"

definition solve :: "dhl \<Rightarrow> optimize_result \<Rightarrow> py_error + output_row list" where
  "solve s r =
     (case r of
        Optimize_raises \<Rightarrow> Inl GurobiError
      | Optimize_returns st sol \<Rightarrow>
          if st \<in> {OPTIMAL, TIME_LIMIT, SUBOPTIMAL}
          then collect (output_rows s sol) (map fst (X s))
          else Inl UnboundLocalError)"

section \<open>Notions used in the proofs\<close>

text \<open>
  The variable each name is declared with, the handles the dictionaries hold, and the
  constraints each family adds once every lookup succeeds.
\<close>

definition declared :: "var_name \<Rightarrow> gvar" where
  "declared n =
     (case n of
        X_name i j k l \<Rightarrow> \<lparr>vtype = BINARY, lb = 0, ub = None, vname = n\<rparr>
      | Z_name l \<Rightarrow> \<lparr>vtype = BINARY, lb = 0, ub = None, vname = n\<rparr>
      | T_name l \<Rightarrow> \<lparr>vtype = CONTINUOUS, lb = 0, ub = None, vname = n\<rparr>
      | ArrivalTime_name l \<Rightarrow> \<lparr>vtype = CONTINUOUS, lb = 0, ub = Some 24, vname = n\<rparr>
      | ArrivalDayBinary_name l d \<Rightarrow> \<lparr>vtype = BINARY, lb = 0, ub = None, vname = n\<rparr>
      | multiplier_name i j k l \<Rightarrow> \<lparr>vtype = INTEGER, lb = 0, ub = None, vname = n\<rparr>)"

definition handle :: "gmodel \<Rightarrow> nat \<Rightarrow> var_name \<Rightarrow> bool" where
  "handle m h n \<longleftrightarrow> h < length (vars m) \<and> vars m ! h = declared n"

definition handles_ok :: "dhl \<Rightarrow> bool" where
  "handles_ok s \<longleftrightarrow>
     (\<forall>g \<in> set (vars (model s)). g = declared (vname g)) \<and>
     (\<forall>i j k l h. map_of (X s) (i, j, k, l) = Some h \<longrightarrow> handle (model s) h (X_name i j k l)) \<and>
     (\<forall>l h. Z s l = Some h \<longrightarrow> handle (model s) h (Z_name l)) \<and>
     (\<forall>l h. T s l = Some h \<longrightarrow> handle (model s) h (T_name l)) \<and>
     (\<forall>l d h. ArrivalDayBinary s (l, d) = Some h \<longrightarrow>
        handle (model s) h (ArrivalDayBinary_name l d))"

definition complete :: "dhl \<Rightarrow> combination list \<Rightarrow> bool" where
  "complete s vc \<longleftrightarrow>
     (\<forall>(i, j, k) \<in> set vc. \<forall>l \<in> set (trucks s). map_of (X s) (i, j, k, l) \<noteq> None) \<and>
     (\<forall>l \<in> set (trucks s). Z s l \<noteq> None \<and> T s l \<noteq> None \<and>
        (\<forall>d \<in> set days. ArrivalDayBinary s (l, d) \<noteq> None))"

definition selection :: "source_row list \<Rightarrow> facility list \<Rightarrow> facility \<Rightarrow> combination list" where
  "selection df sl d =
     combinations df (routes sl [d]) (consignments df (routes sl [d]))"

definition initialized :: "dhl \<Rightarrow> facility list \<Rightarrow> facility \<Rightarrow> bool" where
  "initialized s sl d \<longleftrightarrow>
     source_list s = Some sl \<and> destination_list s = Some [d] \<and>
     routes_list s = Some (routes sl [d]) \<and>
     consignment_list s = Some (consignments (source_df s) (routes sl [d])) \<and>
     valid_combinations s = Some (selection (source_df s) sl d) \<and>
     trucks s = range_300"

definition add_constrs :: "dhl \<Rightarrow> constr list \<Rightarrow> dhl" where
  "add_constrs s cs = s\<lparr>model := (model s)\<lparr>constrs := constrs (model s) @ cs\<rparr>\<rparr>"

definition same_data :: "dhl \<Rightarrow> dhl \<Rightarrow> bool" where
  "same_data s s' \<longleftrightarrow>
     X s' = X s \<and> Z s' = Z s \<and> T s' = T s \<and> ArrivalDayBinary s' = ArrivalDayBinary s \<and>
     source_df s' = source_df s \<and> destination_df s' = destination_df s \<and>
     trucking_df s' = trucking_df s \<and> source_list s' = source_list s \<and>
     destination_list s' = destination_list s \<and> routes_list s' = routes_list s \<and>
     consignment_list s' = consignment_list s \<and>
     valid_combinations s' = valid_combinations s \<and> trucks s' = trucks s"

definition hX :: "dhl \<Rightarrow> combination \<Rightarrow> nat \<Rightarrow> nat" where
  "hX s c l = the (map_of (X s) (fst c, fst (snd c), snd (snd c), l))"

definition hZ :: "dhl \<Rightarrow> nat \<Rightarrow> nat" where
  "hZ s l = the (Z s l)"

definition hT :: "dhl \<Rightarrow> nat \<Rightarrow> nat" where
  "hT s l = the (T s l)"

definition hA :: "dhl \<Rightarrow> nat \<Rightarrow> nat \<Rightarrow> nat" where
  "hA s l d = the (ArrivalDayBinary s (l, d))"

definition capacity_c :: "dhl \<Rightarrow> combination list \<Rightarrow> nat \<Rightarrow> constr" where
  "capacity_c s vc l =
     Constr (quicksum (map (\<lambda>c. Var (hX s c l)) vc)) LE (Mul (Const 2) (Var (hZ s l))) None"

definition release_c :: "dhl \<Rightarrow> combination \<Rightarrow> nat \<Rightarrow> constr" where
  "release_c s c l =
     Constr (Var (hT s l)) GE
       (Mul (Const (real (projr (release_time (source_df s) (snd (snd c)))))) (Var (hX s c l)))
       None"

definition arrival_e :: "dhl \<Rightarrow> combination \<Rightarrow> nat \<Rightarrow> nat \<Rightarrow> expr" where
  "arrival_e s c l h =
     Sub (Add (Add (Var (hT s l))
            (Mul (Const (projr (travel_time (trucking_df s) (fst c) (fst (snd c)))))
               (Var (hX s c l))))
          (Mul (Const 24)
             (quicksum (map (\<lambda>d. Mul (Const (real (d - 1))) (Var (hA s l d))) days))))
       (Mul (Const 24) (Var h))"

definition window_c :: "dhl \<Rightarrow> combination \<times> nat \<Rightarrow> nat \<Rightarrow> constr list" where
  "window_c s p h =
     [Constr (arrival_e s (fst p) (snd p) h) GE
        (Const (projr (start_shift (destination_df s) (fst (snd (fst p)))))) None,
      Constr (arrival_e s (fst p) (snd p) h) LE
        (Const (projr (end_shift (destination_df s) (fst (snd (fst p)))))) None]"

definition assignment_c :: "dhl \<Rightarrow> combination \<Rightarrow> constr" where
  "assignment_c s c =
     Constr (quicksum (map (\<lambda>l. Mul (Var (hX s c l)) (Var (hZ s l))) (trucks s)))
       EQ (Const 1) None"

definition sorting_e :: "dhl \<Rightarrow> facility list \<Rightarrow> int list \<Rightarrow> combination list \<Rightarrow>
    facility \<Rightarrow> nat \<Rightarrow> expr list" where
  "sorting_e s sl cl vc j d =
     concat (map (\<lambda>i. if j \<noteq> i then
        concat (map (\<lambda>k. concat (map (\<lambda>l.
          if (i, j, k) \<in> set vc
          then [Mul (Mul (Var (hX s (i, j, k) l))
                  (Const (projr (quantity (source_df s) k)))) (Var (hA s l d))]
          else []) (trucks s))) cl)
        else []) sl)"

definition sorting_c :: "dhl \<Rightarrow> facility list \<Rightarrow> int list \<Rightarrow> combination list \<Rightarrow>
    facility \<Rightarrow> nat \<Rightarrow> constr" where
  "sorting_c s sl cl vc j d =
     Constr (quicksum (sorting_e s sl cl vc j d)) LE
       (Const ((projr (end_shift (destination_df s) j)
                - projr (start_shift (destination_df s) j)) / 2
               * projr (sorting_capacity (destination_df s) j)))
       (Some (SortingCapacity j d))"

definition arrival_day_c :: "dhl \<Rightarrow> nat \<Rightarrow> constr" where
  "arrival_day_c s l =
     Constr (quicksum (map (\<lambda>d. Mul (Var (hA s l d)) (Var (hZ s l))) days))
       EQ (Const 1) (Some Assigning_Arrival_Day)"

definition ready :: "dhl \<Rightarrow> facility list \<Rightarrow> int list \<Rightarrow> combination list \<Rightarrow> facility \<Rightarrow> bool" where
  "ready s sl cl vc d \<longleftrightarrow>
     complete s vc \<and> valid_combinations s = Some vc \<and> source_list s = Some sl \<and>
     consignment_list s = Some cl \<and> destination_list s = Some [d] \<and>
     (\<forall>c \<in> set vc. fst (snd c) = d \<and> (\<exists>r \<in> set (source_df s). src_id r = snd (snd c)))"

definition add_window :: "dhl \<Rightarrow> combination \<times> nat \<Rightarrow> dhl \<Rightarrow> dhl" where
  "add_window b p s =
     s\<lparr>model := (model s)
         \<lparr>vars := vars (model s) @
            [declared (multiplier_name (fst (fst p)) (fst (snd (fst p))) (snd (snd (fst p)))
               (snd p))],
          constrs := constrs (model s) @ window_c b p (length (vars (model s)))\<rparr>,
       ArrivalTime := (ArrivalTime s)
         (snd p \<mapsto> arrival_e b (fst p) (snd p) (length (vars (model s))))\<rparr>"

definition extends :: "dhl \<Rightarrow> dhl \<Rightarrow> bool" where
  "extends b s \<longleftrightarrow>
     same_data b s \<and>
     (\<exists>ws. vars (model s) = vars (model b) @ ws \<and> (\<forall>g \<in> set ws. g = declared (vname g))) \<and>
     (\<exists>cs. constrs (model s) = constrs (model b) @ cs)"

definition window_data :: "dhl \<Rightarrow> combination \<Rightarrow> bool" where
  "window_data s c \<longleftrightarrow>
     (\<exists>r \<in> set (destination_df s). dst_Destination_ID r = fst (snd c)) \<and>
     (\<exists>r \<in> set (trucking_df s). trk_Origin_ID r = fst c \<and> trk_Destination_ID r = fst (snd c))"

definition multiplier_var :: "combination \<times> nat \<Rightarrow> gvar" where
  "multiplier_var p =
     declared (multiplier_name (fst (fst p)) (fst (snd (fst p))) (snd (snd (fst p))) (snd p))"

definition window_cs :: "dhl \<Rightarrow> nat \<Rightarrow> (combination \<times> nat) list \<Rightarrow> constr list" where
  "window_cs b n ps = concat (map (\<lambda>(p, h). window_c b p h) (zip ps [n..<n + length ps]))"

text \<open>The destination table that \<^verbatim>\<open>normalize_shift_times\<close> leaves when it returns.\<close>

definition normalized :: "raw_destination_row list \<Rightarrow> destination_row list" where
  "normalized dst = map normalize_row dst"

definition tables_ok ::
  "source_row list \<Rightarrow> raw_destination_row list \<Rightarrow> trucking_row list \<Rightarrow>
   facility list \<Rightarrow> facility \<Rightarrow> bool" where
  "tables_ok src dst trk sl d \<longleftrightarrow>
     (\<exists>r \<in> set (normalized dst). dst_Destination_ID r = d) \<and>
     (\<forall>c \<in> set (selection src sl d).
        \<exists>r \<in> set trk. trk_Origin_ID r = fst c \<and> trk_Destination_ID r = d)"

definition built ::
  "source_row list \<Rightarrow> raw_destination_row list \<Rightarrow> trucking_row list \<Rightarrow>
   facility list \<Rightarrow> facility \<Rightarrow> dhl \<Rightarrow> bool" where
  "built src dst trk sl d s \<longleftrightarrow>
     handles_ok s \<and>
     ready s sl (consignments src (routes sl [d])) (selection src sl d) d \<and>
     trucks s = range_300 \<and> source_df s = src \<and>
     destination_df s = normalized dst \<and> trucking_df s = trk \<and>
     vars (model s) =
       take (300 * length (selection src sl d) + 2700) (vars (model s))
         @ map multiplier_var (List.product (selection src sl d) range_300) \<and>
     length (vars (model s)) = 600 * length (selection src sl d) + 2700 \<and>
     constrs (model s) =
       map (capacity_c s (selection src sl d)) range_300
       @ concat (map (\<lambda>c. map (release_c s c) range_300) (selection src sl d))
       @ window_cs s (300 * length (selection src sl d) + 2700)
           (List.product (selection src sl d) range_300)
       @ map (assignment_c s) (selection src sl d)
       @ map (sorting_c s sl (consignments src (routes sl [d])) (selection src sl d) d) days
       @ map (arrival_day_c s) range_300"

definition by_name :: "dhl \<Rightarrow> (var_name \<Rightarrow> real) \<Rightarrow> nat \<Rightarrow> real" where
  "by_name s f h = f (vname (vars (model s) ! h))"

section \<open>An example run\<close>

text \<open>
  One consignment of 10 pieces released at 08:\<open>m\<close> at \<open>A\<close> for \<open>D\<close>, a lane of one hour, and a
  destination that works from 07:00 to 19:00 and sorts 20 pieces an hour. The solution
  loads truck 0, sends every truck at 8 and lets it arrive on day 1. It is given by
  the names of the variables.
\<close>

definition example_source :: "nat \<Rightarrow> source_row list" where
  "example_source m =
     [\<lparr>src_id = 1, src_Origin_ID = ''A'', src_Destination_ID = ''D'',
       src_planned_end_of_loading = \<lparr>hour = 8, minute = m\<rparr>,
       src_Consignment_quantity = 10\<rparr>]"

definition example_destination :: "raw_destination_row list" where
  "example_destination =
     [\<lparr>raw_Destination_ID = ''D'', raw_Start_of_shift = \<lparr>hour = 7, minute = 0\<rparr>,
       raw_End_of_lay_on = \<lparr>hour = 19, minute = 0\<rparr>, raw_Sorting_capacity = 20\<rparr>]"

definition example_trucking :: "trucking_row list" where
  "example_trucking =
     [\<lparr>trk_Origin_ID = ''A'', trk_Destination_ID = ''D'', trk_OSRM_time = 3600\<rparr>]"

definition example_values :: "var_name \<Rightarrow> real" where
  "example_values n =
     (case n of
        X_name i j k l \<Rightarrow> if l = 0 then 1 else 0
      | Z_name l \<Rightarrow> 1
      | T_name l \<Rightarrow> 8
      | ArrivalTime_name l \<Rightarrow> 0
      | ArrivalDayBinary_name l dy \<Rightarrow> if dy = 1 then 1 else 0
      | multiplier_name i j k l \<Rightarrow> 0)"

text \<open>
  The dummy tables of \<^verbatim>\<open>test_optimization.py\<close>, selected as its fixture does: every
  origin of the source table, and the first destination.
\<close>

definition dummy_source_data :: "source_row list" where
  "dummy_source_data =
     [\<lparr>src_id = 7791592, src_Origin_ID = ''01.1.1.PZ'', src_Destination_ID = ''50.1.1.PZ'',
       src_planned_end_of_loading = \<lparr>hour = 8, minute = 0\<rparr>,
       src_Consignment_quantity = 921\<rparr>,
      \<lparr>src_id = 7791596, src_Origin_ID = ''15.1.1.PZ'', src_Destination_ID = ''44.1.1.PZ'',
       src_planned_end_of_loading = \<lparr>hour = 9, minute = 0\<rparr>,
       src_Consignment_quantity = 1085\<rparr>]"

definition dummy_destination_data :: "raw_destination_row list" where
  "dummy_destination_data =
     [\<lparr>raw_Destination_ID = ''PZE1'', raw_Start_of_shift = \<lparr>hour = 7, minute = 0\<rparr>,
       raw_End_of_lay_on = \<lparr>hour = 19, minute = 0\<rparr>, raw_Sorting_capacity = 20\<rparr>,
      \<lparr>raw_Destination_ID = ''PZE2'', raw_Start_of_shift = \<lparr>hour = 7, minute = 0\<rparr>,
       raw_End_of_lay_on = \<lparr>hour = 19, minute = 0\<rparr>, raw_Sorting_capacity = 25\<rparr>]"

definition dummy_trucking_data :: "trucking_row list" where
  "dummy_trucking_data =
     [\<lparr>trk_Origin_ID = ''PZA1'', trk_Destination_ID = ''PZE1'', trk_OSRM_time = 3600\<rparr>,
      \<lparr>trk_Origin_ID = ''PZA1'', trk_Destination_ID = ''PZE2'', trk_OSRM_time = 7200\<rparr>,
      \<lparr>trk_Origin_ID = ''PZA2'', trk_Destination_ID = ''PZE1'', trk_OSRM_time = 3600\<rparr>,
      \<lparr>trk_Origin_ID = ''PZA2'', trk_Destination_ID = ''PZE2'', trk_OSRM_time = 7200\<rparr>]"

section \<open>Lemmas\<close>

lemma clock_hours_bounds:
  assumes "valid_clock c"
  shows "0 \<le> clock_hours c" and "clock_hours c < 24"
proof -
  show "0 \<le> clock_hours c" by (simp add: clock_hours_def)
  from assms have h: "real (hour c) \<le> 23" and m: "real (minute c) < 60"
    by (simp_all add: valid_clock_def)
  then show "clock_hours c < 24" by (simp add: clock_hours_def)
qed

subsection \<open>Failures and loops\<close>

lemma and_then_simps [simp]:
  "and_then (Inr x) f = f x" "and_then (Inl e) f = Inl e"
  by (simp_all add: and_then_def)

lemma raising_simps [simp]:
  "raising s (Inr x) = Inr x" "raising s (Inl e) = Inl (e, s)"
  by (simp_all add: raising_def)

lemma iterable_simps [simp]: "iterable (Some xs) = Inr xs" "iterable None = Inl TypeError"
  by (simp_all add: iterable_def)

lemma lookup_Some: "d k = Some v \<Longrightarrow> lookup d k = Inr v"
  by (simp add: lookup_def)

lemma collect_Inr:
  "(\<And>x. x \<in> set xs \<Longrightarrow> f x = Inr (g x)) \<Longrightarrow> collect f xs = Inr (concat (map g xs))"
  by (induction xs) simp_all

lemma values0_filter:
  "\<exists>r \<in> set df. P r \<Longrightarrow> \<exists>y. values0 (map f (filter P df)) = Inr y"
  by (induction df) (auto simp: values0_def)

lemma values0_filter_none:
  "\<not> (\<exists>r \<in> set df. P r) \<Longrightarrow> values0 (map f (filter P df)) = Inl IndexError"
  by (induction df) (auto simp: values0_def)

lemma for_each_fold:
  assumes "I s"
    and "\<And>x s. x \<in> set xs \<Longrightarrow> I s \<Longrightarrow> body x s = Inr (step x s) \<and> I (step x s)"
  shows "for_each body xs s = Inr (fold step xs s) \<and> I (fold step xs s)"
  using assms by (induction xs arbitrary: s) simp_all

lemma for_each_hoare:
  assumes "I s"
    and "\<And>x s. x \<in> set xs \<Longrightarrow> I s \<Longrightarrow>
           (case body x s of Inr s' \<Rightarrow> I s' | Inl (e, s') \<Rightarrow> Q e s')"
  shows "case for_each body xs s of Inr s' \<Rightarrow> I s' | Inl (e, s') \<Rightarrow> Q e s'"
  using assms
proof (induction xs arbitrary: s)
  case Nil
  then show ?case by simp
next
  case (Cons x xs)
  from Cons.prems(2) [of x s] Cons.prems(1)
  have b: "case body x s of Inr s' \<Rightarrow> I s' | Inl (e, s') \<Rightarrow> Q e s'" by simp
  show ?case
  proof (cases "body x s")
    case (Inl a)
    with b show ?thesis by simp
  next
    case (Inr s1)
    with b have "I s1" by simp
    then have "case for_each body xs s1 of Inr s' \<Rightarrow> I s' | Inl (e, s') \<Rightarrow> Q e s'"
      using Cons.prems(2) by (intro Cons.IH) simp_all
    with Inr show ?thesis by simp
  qed
qed

lemma for_each_fails:
  assumes "I s"
    and "\<And>x s. x \<in> set xs \<Longrightarrow> I s \<Longrightarrow>
           (case body x s of Inr s' \<Rightarrow> I s' | Inl (e, s') \<Rightarrow> Q e s')"
    and "x \<in> set xs" and "\<And>s. I s \<Longrightarrow> isl (body x s)"
  shows "case for_each body xs s of Inr s' \<Rightarrow> False | Inl (e, s') \<Rightarrow> Q e s'"
  using assms
proof (induction xs arbitrary: s)
  case Nil
  then show ?case by simp
next
  case (Cons y ys)
  from Cons.prems(2) [of y s] Cons.prems(1)
  have b: "case body y s of Inr s' \<Rightarrow> I s' | Inl (e, s') \<Rightarrow> Q e s'" by simp
  show ?case
  proof (cases "body y s")
    case (Inl a)
    with b show ?thesis by simp
  next
    case (Inr s1)
    with b have i1: "I s1" by simp
    from Inr Cons.prems(4) [OF Cons.prems(1)] have "x \<noteq> y" by auto
    with Cons.prems(3) have "x \<in> set ys" by simp
    with i1 have "case for_each body ys s1 of Inr s' \<Rightarrow> False | Inl (e, s') \<Rightarrow> Q e s'"
      using Cons.prems(2,4) by (intro Cons.IH) simp_all
    with Inr show ?thesis by simp
  qed
qed

subsection \<open>Handles of the variables\<close>

lemma foldl_invariant:
  "P s \<Longrightarrow> (\<And>s x. P s \<Longrightarrow> x \<in> set xs \<Longrightarrow> P (f s x)) \<Longrightarrow> P (foldl f s xs)"
  by (induction xs arbitrary: s) simp_all

lemma handle_append:
  "handle m h n \<Longrightarrow> vars m' = vars m @ ws \<Longrightarrow> handle m' h n"
  by (simp add: handle_def nth_append)

lemma handle_new:
  "vars m' = vars m @ [declared n] \<Longrightarrow> handle m' (length (vars m)) n"
  by (simp add: handle_def)

lemma declared_vname [simp]: "vname (declared n) = n"
  by (cases n) (simp_all add: declared_def)

lemma add_X_var_fields [simp]:
  "vars (model (add_X_var s (i, j, k, l))) = vars (model s) @ [declared (X_name i j k l)]"
  "constrs (model (add_X_var s key)) = constrs (model s)"
  "objective (model (add_X_var s key)) = objective (model s)"
  "map_of (X (add_X_var s (i, j, k, l))) = (map_of (X s))((i, j, k, l) \<mapsto> length (vars (model s)))"
  "Z (add_X_var s key) = Z s" "T (add_X_var s key) = T s"
  "ArrivalDayBinary (add_X_var s key) = ArrivalDayBinary s"
  "ArrivalTime (add_X_var s key) = ArrivalTime s"
  "ArrivalDay (add_X_var s key) = ArrivalDay s"
  "trucks (add_X_var s key) = trucks s"
  "source_df (add_X_var s key) = source_df s"
  "destination_df (add_X_var s key) = destination_df s"
  "trucking_df (add_X_var s key) = trucking_df s"
  "source_list (add_X_var s key) = source_list s"
  "destination_list (add_X_var s key) = destination_list s"
  "routes_list (add_X_var s key) = routes_list s"
  "consignment_list (add_X_var s key) = consignment_list s"
  "valid_combinations (add_X_var s key) = valid_combinations s"
  by (simp_all add: add_X_var_def addVar_def declared_def update_conv' split: prod.splits)

lemma handles_ok_extend:
  assumes "handles_ok s"
    and "vars (model s') = vars (model s) @ ws"
    and "\<And>g. g \<in> set ws \<Longrightarrow> g = declared (vname g)"
    and "\<And>i j k l h. map_of (X s') (i, j, k, l) = Some h \<Longrightarrow>
           map_of (X s) (i, j, k, l) = Some h \<or> handle (model s') h (X_name i j k l)"
    and "\<And>l h. Z s' l = Some h \<Longrightarrow> Z s l = Some h \<or> handle (model s') h (Z_name l)"
    and "\<And>l h. T s' l = Some h \<Longrightarrow> T s l = Some h \<or> handle (model s') h (T_name l)"
    and "\<And>l d h. ArrivalDayBinary s' (l, d) = Some h \<Longrightarrow>
           ArrivalDayBinary s (l, d) = Some h \<or> handle (model s') h (ArrivalDayBinary_name l d)"
  shows "handles_ok s'"
  unfolding handles_ok_def
proof (intro conjI allI impI ballI)
  fix g assume "g \<in> set (vars (model s'))"
  with assms(1,2,3) show "g = declared (vname g)"
    by (auto simp: handles_ok_def)
next
  fix i j k l h assume "map_of (X s') (i, j, k, l) = Some h"
  from assms(4) [OF this] assms(1) show "handle (model s') h (X_name i j k l)"
    by (auto simp: handles_ok_def intro: handle_append [OF _ assms(2)])
next
  fix l h assume "Z s' l = Some h"
  from assms(5) [OF this] assms(1) show "handle (model s') h (Z_name l)"
    by (auto simp: handles_ok_def intro: handle_append [OF _ assms(2)])
next
  fix l h assume "T s' l = Some h"
  from assms(6) [OF this] assms(1) show "handle (model s') h (T_name l)"
    by (auto simp: handles_ok_def intro: handle_append [OF _ assms(2)])
next
  fix l d h assume "ArrivalDayBinary s' (l, d) = Some h"
  from assms(7) [OF this] assms(1) show "handle (model s') h (ArrivalDayBinary_name l d)"
    by (auto simp: handles_ok_def intro: handle_append [OF _ assms(2)])
qed

lemma handles_ok_add_X_var: "handles_ok s \<Longrightarrow> handles_ok (add_X_var s key)"
proof -
  obtain i j k l where key: "key = (i, j, k, l)" by (cases key) auto
  assume ok: "handles_ok s"
  have v: "vars (model (add_X_var s key)) = vars (model s) @ [declared (X_name i j k l)]"
    by (simp add: key)
  show ?thesis
    by (rule handles_ok_extend [OF ok v])
      (auto simp: key split: if_splits intro: handle_new)
qed

lemma days_upt: "days = [1, 2, 3, 4, 5, 6]"
  by (simp add: days_def upt_rec)

lemma set_days: "set days = {1..<7}"
  by (simp add: days_def)

lemma length_days [simp]: "length days = 6"
  by (simp add: days_def)

lemma add_truck_vars_vars:
  "vars (model (add_truck_vars s l)) =
     vars (model s) @ [declared (Z_name l), declared (T_name l), declared (ArrivalTime_name l)]
       @ map (\<lambda>d. declared (ArrivalDayBinary_name l d)) days"
  by (simp add: add_truck_vars_def add_day_var_def addVar_def declared_def days_upt)

lemma add_truck_vars_fields [simp]:
  "constrs (model (add_truck_vars s l)) = constrs (model s)"
  "objective (model (add_truck_vars s l)) = objective (model s)"
  "X (add_truck_vars s l) = X s"
  "Z (add_truck_vars s l) = (Z s)(l \<mapsto> length (vars (model s)))"
  "T (add_truck_vars s l) = (T s)(l \<mapsto> Suc (length (vars (model s))))"
  "ArrivalDay (add_truck_vars s l) = ArrivalDay s"
  "trucks (add_truck_vars s l) = trucks s"
  "source_df (add_truck_vars s l) = source_df s"
  "destination_df (add_truck_vars s l) = destination_df s"
  "trucking_df (add_truck_vars s l) = trucking_df s"
  "source_list (add_truck_vars s l) = source_list s"
  "destination_list (add_truck_vars s l) = destination_list s"
  "routes_list (add_truck_vars s l) = routes_list s"
  "consignment_list (add_truck_vars s l) = consignment_list s"
  "valid_combinations (add_truck_vars s l) = valid_combinations s"
  by (simp_all add: add_truck_vars_def add_day_var_def addVar_def days_upt)

lemma add_truck_vars_days:
  "ArrivalDayBinary (add_truck_vars s l) (l', d) =
     (if l' = l \<and> d \<in> {1..<7} then Some (length (vars (model s)) + 2 + d)
      else ArrivalDayBinary s (l', d))"
proof (cases "d \<in> {1..<7}")
  case True
  then have "d = 1 \<or> d = 2 \<or> d = 3 \<or> d = 4 \<or> d = 5 \<or> d = 6" by auto
  then show ?thesis
    by (auto simp add: add_truck_vars_def add_day_var_def addVar_def days_upt)
next
  case False
  then have "d \<noteq> 1" "d \<noteq> 2" "d \<noteq> 3" "d \<noteq> 4" "d \<noteq> 5" "d \<noteq> 6" by auto
  then have "ArrivalDayBinary (add_truck_vars s l) (l', d) = ArrivalDayBinary s (l', d)"
    by (simp add: add_truck_vars_def add_day_var_def addVar_def days_upt)
  with False show ?thesis by auto
qed

lemma days_nth: "d \<in> {1..<7} \<Longrightarrow> days ! (d - 1) = d"
  by (simp add: days_def)

lemma add_truck_vars_day_handle:
  assumes "d \<in> {1..<7}"
  shows "handle (model (add_truck_vars s l)) (length (vars (model s)) + 2 + d)
     (ArrivalDayBinary_name l d)"
proof -
  let ?f = "\<lambda>d. declared (ArrivalDayBinary_name l d)"
  let ?new = "[declared (Z_name l), declared (T_name l), declared (ArrivalTime_name l)]
       @ map ?f days"
  have "?new ! (2 + d) = map ?f days ! (d - 1)"
    using assms by (simp add: nth_append nth_Cons' )
  also have "\<dots> = ?f d"
  proof -
    have lt: "d - 1 < length days" using assms by (simp del: One_nat_def) arith
    show ?thesis unfolding nth_map [OF lt] using assms by (simp only: days_nth)
  qed
  finally have "?new ! (2 + d) = ?f d" .
  moreover have "vars (model (add_truck_vars s l)) ! (length (vars (model s)) + (2 + d))
      = ?new ! (2 + d)"
    unfolding add_truck_vars_vars by (rule nth_append_length_plus)
  ultimately show ?thesis
    using assms by (simp add: handle_def add_truck_vars_vars add.assoc)
qed

lemma handles_ok_add_truck_vars: "handles_ok s \<Longrightarrow> handles_ok (add_truck_vars s l)"
proof -
  assume ok: "handles_ok s"
  show ?thesis
  proof (rule handles_ok_extend [OF ok add_truck_vars_vars])
    fix l' d h assume "ArrivalDayBinary (add_truck_vars s l) (l', d) = Some h"
    then show "ArrivalDayBinary s (l', d) = Some h \<or>
        handle (model (add_truck_vars s l)) h (ArrivalDayBinary_name l' d)"
      using add_truck_vars_day_handle [of d s l]
      by (auto simp: add_truck_vars_days split: if_splits)
  qed (auto simp: handle_def add_truck_vars_vars nth_append split: if_splits)
qed

lemma foldl_add_X_var:
  "handles_ok s \<Longrightarrow> handles_ok (foldl add_X_var s ks)"
  "length (vars (model (foldl add_X_var s ks))) = length (vars (model s)) + length ks"
  "constrs (model (foldl add_X_var s ks)) = constrs (model s)"
  "Z (foldl add_X_var s ks) = Z s" "T (foldl add_X_var s ks) = T s"
  "ArrivalDayBinary (foldl add_X_var s ks) = ArrivalDayBinary s"
  "trucks (foldl add_X_var s ks) = trucks s"
  "source_df (foldl add_X_var s ks) = source_df s"
  "destination_df (foldl add_X_var s ks) = destination_df s"
  "trucking_df (foldl add_X_var s ks) = trucking_df s"
  "source_list (foldl add_X_var s ks) = source_list s"
  "destination_list (foldl add_X_var s ks) = destination_list s"
  "routes_list (foldl add_X_var s ks) = routes_list s"
  "consignment_list (foldl add_X_var s ks) = consignment_list s"
  "valid_combinations (foldl add_X_var s ks) = valid_combinations s"
  by (induction ks arbitrary: s; simp add: handles_ok_add_X_var; (simp add: add_X_var_def addVar_def split: prod.splits)?)+

lemma foldl_add_X_var_present:
  "key \<in> set ks \<or> map_of (X s) key \<noteq> None \<Longrightarrow> map_of (X (foldl add_X_var s ks)) key \<noteq> None"
proof (induction ks arbitrary: s)
  case Nil
  then show ?case by simp
next
  case (Cons a ks)
  obtain i j k l where a: "a = (i, j, k, l)" by (cases a) auto
  from Cons.prems have "key \<in> set ks \<or> map_of (X (add_X_var s a)) key \<noteq> None"
    by (auto simp: a)
  from Cons.IH [OF this] show ?case by simp
qed

lemma foldl_add_truck_vars:
  "handles_ok s \<Longrightarrow> handles_ok (foldl add_truck_vars s ls)"
  "length (vars (model (foldl add_truck_vars s ls))) = length (vars (model s)) + 9 * length ls"
  "constrs (model (foldl add_truck_vars s ls)) = constrs (model s)"
  "X (foldl add_truck_vars s ls) = X s"
  "trucks (foldl add_truck_vars s ls) = trucks s"
  "source_df (foldl add_truck_vars s ls) = source_df s"
  "destination_df (foldl add_truck_vars s ls) = destination_df s"
  "trucking_df (foldl add_truck_vars s ls) = trucking_df s"
  "source_list (foldl add_truck_vars s ls) = source_list s"
  "destination_list (foldl add_truck_vars s ls) = destination_list s"
  "routes_list (foldl add_truck_vars s ls) = routes_list s"
  "consignment_list (foldl add_truck_vars s ls) = consignment_list s"
  "valid_combinations (foldl add_truck_vars s ls) = valid_combinations s"
  by (induction ls arbitrary: s; simp add: handles_ok_add_truck_vars add_truck_vars_vars)+

lemma foldl_add_truck_vars_present:
  "l \<in> set ls \<or> Z s l \<noteq> None \<Longrightarrow> Z (foldl add_truck_vars s ls) l \<noteq> None"
  "l \<in> set ls \<or> T s l \<noteq> None \<Longrightarrow> T (foldl add_truck_vars s ls) l \<noteq> None"
  "l \<in> set ls \<or> ArrivalDayBinary s (l, d) \<noteq> None \<Longrightarrow> d \<in> {1..<7} \<Longrightarrow>
     ArrivalDayBinary (foldl add_truck_vars s ls) (l, d) \<noteq> None"
proof (induction ls arbitrary: s)
  case Nil
  { case 1 then show ?case by simp }
  { case 2 then show ?case by simp }
  { case 3 then show ?case by simp }
next
  case (Cons a ls)
  { case 1
    then have "l \<in> set ls \<or> Z (add_truck_vars s a) l \<noteq> None" by auto
    from Cons.IH(1) [OF this] show ?case by simp }
  { case 2
    then have "l \<in> set ls \<or> T (add_truck_vars s a) l \<noteq> None" by auto
    from Cons.IH(2) [OF this] show ?case by simp }
  { case 3
    then have "l \<in> set ls \<or> ArrivalDayBinary (add_truck_vars s a) (l, d) \<noteq> None"
      by (auto simp: add_truck_vars_days)
    from Cons.IH(3) [OF this 3(2)] show ?case by simp }
qed

subsection \<open>\<^verbatim>\<open>initialize_model\<close> succeeds\<close>

lemma lookup_the: "d k \<noteq> None \<Longrightarrow> lookup d k = Inr (the (d k))"
  by (auto simp: lookup_def)

lemma collect_single:
  "(\<And>x. x \<in> set xs \<Longrightarrow> f x = Inr [g x]) \<Longrightarrow> collect f xs = Inr (map g xs)"
  by (induction xs) simp_all

lemma objective_expr_total:
  assumes "\<And>l. l \<in> set ls \<Longrightarrow> Zd l \<noteq> None \<and> (\<forall>d \<in> set days. Ad (l, d) \<noteq> None)"
  shows "\<exists>e. objective_expr Zd Ad ls = Inr e"
proof -
  have "collect (\<lambda>l.
          and_then (lookup Zd l) (\<lambda>z.
          and_then
            (collect (\<lambda>d. and_then (lookup Ad (l, d))
               (\<lambda>a. Inr [Mul (Const (real d)) (Var a)])) days)
            (\<lambda>ds. Inr [Mul (Var z) (quicksum ds)]))) ls
       = Inr (map (\<lambda>l. Mul (Var (the (Zd l)))
            (quicksum (map (\<lambda>d. Mul (Const (real d)) (Var (the (Ad (l, d))))) days))) ls)"
  proof (rule collect_single)
    fix l assume l: "l \<in> set ls"
    have inner: "collect (\<lambda>d. and_then (lookup Ad (l, d))
               (\<lambda>a. Inr [Mul (Const (real d)) (Var a)])) days
        = Inr (map (\<lambda>d. Mul (Const (real d)) (Var (the (Ad (l, d))))) days)"
      by (rule collect_single) (use assms [OF l] in \<open>simp add: lookup_the\<close>)
    from assms [OF l] show "and_then (lookup Zd l) (\<lambda>z.
          and_then
            (collect (\<lambda>d. and_then (lookup Ad (l, d))
               (\<lambda>a. Inr [Mul (Const (real d)) (Var a)])) days)
            (\<lambda>ds. Inr [Mul (Var z) (quicksum ds)]))
        = Inr [Mul (Var (the (Zd l)))
            (quicksum (map (\<lambda>d. Mul (Const (real d)) (Var (the (Ad (l, d))))) days))]"
      by (simp add: inner lookup_the)
  qed
  then show ?thesis by (simp add: objective_expr_def)
qed

lemma length_range_300 [simp]: "length range_300 = 300"
  unfolding range_300_def length_upt by simp

lemma set_range_300: "set range_300 = {0..<300}"
  unfolding range_300_def by (rule set_upt)

lemma length_keys: "length (X_keys vc ls) = length vc * length ls"
  by (induction vc) (auto simp: X_keys_def o_def)

lemma set_keys: "(i, j, k, l) \<in> set (X_keys vc ls) \<longleftrightarrow> (i, j, k) \<in> set vc \<and> l \<in> set ls"
  by (induction vc) (auto simp: X_keys_def)

lemma initialize_model_post:
  assumes "handles_ok s"
  shows "\<exists>s'. initialize_model s sl d = Inr s' \<and> handles_ok s' \<and>
     complete s' (selection (source_df s) sl d) \<and> initialized s' sl d \<and>
     source_df s' = source_df s \<and> destination_df s' = destination_df s \<and>
     trucking_df s' = trucking_df s \<and>
     constrs (model s') = constrs (model s) \<and>
     length (vars (model s')) =
       length (vars (model s)) + 300 * length (selection (source_df s) sl d) + 2700"
proof -
  define vc where "vc = selection (source_df s) sl d"
  define s1 where "s1 = s\<lparr>source_list := Some sl, destination_list := Some [d],
      routes_list := Some (routes sl [d]),
      consignment_list := Some (consignments (source_df s) (routes sl [d])),
      valid_combinations := Some vc, trucks := range_300\<rparr>"
  define s2 where "s2 = foldl add_X_var s1 (X_keys vc range_300)"
  define s3 where "s3 = foldl add_truck_vars s2 range_300"
  have ok1: "handles_ok s1" using assms by (simp add: handles_ok_def s1_def)
  have ok2: "handles_ok s2" unfolding s2_def by (rule foldl_add_X_var(1) [OF ok1])
  have ok3: "handles_ok s3" unfolding s3_def by (rule foldl_add_truck_vars(1) [OF ok2])
  have t3: "trucks s3 = range_300"
    by (simp add: s3_def s2_def foldl_add_truck_vars foldl_add_X_var s1_def)
  have X3: "\<And>i j k l. (i, j, k) \<in> set vc \<Longrightarrow> l \<in> set range_300 \<Longrightarrow> map_of (X s3) (i, j, k, l) \<noteq> None"
    unfolding s3_def foldl_add_truck_vars s2_def
    by (rule foldl_add_X_var_present) (simp add: set_keys)
  have Z3: "\<And>l. l \<in> set range_300 \<Longrightarrow> Z s3 l \<noteq> None \<and> T s3 l \<noteq> None \<and>
        (\<forall>d \<in> set days. ArrivalDayBinary s3 (l, d) \<noteq> None)"
    unfolding s3_def by (intro conjI ballI foldl_add_truck_vars_present) (auto simp: set_days)
  have c3: "complete s3 vc"
    using X3 Z3 by (auto simp: complete_def t3)
  from objective_expr_total [of "trucks s3" "Z s3" "ArrivalDayBinary s3"] Z3
  obtain obj where obj: "objective_expr (Z s3) (ArrivalDayBinary s3) (trucks s3) = Inr obj"
    by (auto simp: t3)
  define s' where "s' = s3\<lparr>model := setObjective (model s3) obj\<rparr>"
  have run: "initialize_model s sl d = Inr s'"
    using obj
    by (simp add: initialize_model_def Let_def s'_def s3_def s2_def s1_def vc_def selection_def
        foldl_add_truck_vars foldl_add_X_var)
  have ok': "handles_ok s'"
    using ok3 by (simp add: handles_ok_def s'_def setObjective_def handle_def)
  have c': "complete s' vc" using c3 by (simp add: complete_def s'_def)
  have fields: "source_df s' = source_df s" "destination_df s' = destination_df s"
    "trucking_df s' = trucking_df s" "constrs (model s') = constrs (model s)"
    by (simp_all add: s'_def setObjective_def s3_def s2_def foldl_add_truck_vars
        foldl_add_X_var s1_def)
  have init: "initialized s' sl d"
    by (simp add: initialized_def s'_def s3_def s2_def foldl_add_truck_vars foldl_add_X_var
        s1_def vc_def)
  have len: "length (vars (model s')) = length (vars (model s)) + 300 * length vc + 2700"
    by (simp add: s'_def setObjective_def s3_def s2_def foldl_add_truck_vars
        foldl_add_X_var s1_def length_keys)
  show ?thesis
    by (rule exI [of _ s']) (use run ok' c' init fields len in \<open>simp add: vc_def\<close>)
qed

subsection \<open>The constraint families\<close>

lemma add_constrs_fields [simp]:
  "vars (model (add_constrs s cs)) = vars (model s)"
  "constrs (model (add_constrs s cs)) = constrs (model s) @ cs"
  "objective (model (add_constrs s cs)) = objective (model s)"
  "X (add_constrs s cs) = X s" "Z (add_constrs s cs) = Z s" "T (add_constrs s cs) = T s"
  "ArrivalDayBinary (add_constrs s cs) = ArrivalDayBinary s"
  "ArrivalTime (add_constrs s cs) = ArrivalTime s"
  "ArrivalDay (add_constrs s cs) = ArrivalDay s"
  "trucks (add_constrs s cs) = trucks s"
  "source_df (add_constrs s cs) = source_df s"
  "destination_df (add_constrs s cs) = destination_df s"
  "trucking_df (add_constrs s cs) = trucking_df s"
  "source_list (add_constrs s cs) = source_list s"
  "destination_list (add_constrs s cs) = destination_list s"
  "routes_list (add_constrs s cs) = routes_list s"
  "consignment_list (add_constrs s cs) = consignment_list s"
  "valid_combinations (add_constrs s cs) = valid_combinations s"
  by (simp_all add: add_constrs_def)

lemma add_constrs_add_constrs [simp]:
  "add_constrs (add_constrs s a) b = add_constrs s (a @ b)"
  by (simp add: add_constrs_def)

lemma add_constrs_Nil [simp]: "add_constrs s [] = s"
  by (simp add: add_constrs_def)

lemma add_to_model_eq: "add_to_model s c = add_constrs s [c]"
  by (simp add: add_to_model_def add_constrs_def addConstr_def)

lemma for_each_add_constrs:
  assumes "\<And>x cs. x \<in> set xs \<Longrightarrow> body x (add_constrs s cs) = Inr (add_constrs s (cs @ f x))"
  shows "for_each body xs (add_constrs s cs0) = Inr (add_constrs s (cs0 @ concat (map f xs)))"
  using assms by (induction xs arbitrary: cs0) simp_all

lemma for_each_add_constrs0:
  assumes "\<And>x cs. x \<in> set xs \<Longrightarrow> body x (add_constrs s cs) = Inr (add_constrs s (cs @ f x))"
  shows "for_each body xs s = Inr (add_constrs s (concat (map f xs)))"
  using for_each_add_constrs [of xs body s f "[]"] assms by simp

lemma values0_filter_projr:
  assumes "\<exists>r \<in> set df. P r"
  shows "values0 (map f (filter P df)) = Inr (projr (values0 (map f (filter P df))))"
proof -
  from values0_filter [OF assms, of f] obtain y
    where "values0 (map f (filter P df)) = Inr y" by blast
  then show ?thesis by simp
qed

lemma readyD:
  assumes "ready s sl cl vc d"
  shows "valid_combinations s = Some vc" "source_list s = Some sl"
    "consignment_list s = Some cl" "destination_list s = Some [d]"
    "\<And>c l. c \<in> set vc \<Longrightarrow> l \<in> set (trucks s) \<Longrightarrow>
       lookup (map_of (X s)) (fst c, fst (snd c), snd (snd c), l) = Inr (hX s c l)"
    "\<And>l. l \<in> set (trucks s) \<Longrightarrow> lookup (Z s) l = Inr (hZ s l)"
    "\<And>l. l \<in> set (trucks s) \<Longrightarrow> lookup (T s) l = Inr (hT s l)"
    "\<And>l dy. l \<in> set (trucks s) \<Longrightarrow> dy \<in> set days \<Longrightarrow>
       lookup (ArrivalDayBinary s) (l, dy) = Inr (hA s l dy)"
    "\<And>c. c \<in> set vc \<Longrightarrow> fst (snd c) = d"
    "\<And>c. c \<in> set vc \<Longrightarrow>
       release_time (source_df s) (snd (snd c)) = Inr (projr (release_time (source_df s) (snd (snd c))))"
    "\<And>c. c \<in> set vc \<Longrightarrow>
       quantity (source_df s) (snd (snd c)) = Inr (projr (quantity (source_df s) (snd (snd c))))"
proof -
  from assms show "valid_combinations s = Some vc" "source_list s = Some sl"
    "consignment_list s = Some cl" "destination_list s = Some [d]"
    by (simp_all add: ready_def)
  from assms have c: "complete s vc" by (simp add: ready_def)
  show "lookup (map_of (X s)) (fst c, fst (snd c), snd (snd c), l) = Inr (hX s c l)"
    if "c \<in> set vc" "l \<in> set (trucks s)" for c l
    using c that by (cases c) (force simp: complete_def hX_def intro!: lookup_the)
  show "lookup (Z s) l = Inr (hZ s l)" if "l \<in> set (trucks s)" for l
    using c that by (auto simp: complete_def hZ_def intro!: lookup_the)
  show "lookup (T s) l = Inr (hT s l)" if "l \<in> set (trucks s)" for l
    using c that by (auto simp: complete_def hT_def intro!: lookup_the)
  show "lookup (ArrivalDayBinary s) (l, dy) = Inr (hA s l dy)"
    if "l \<in> set (trucks s)" "dy \<in> set days" for l dy
    using c that by (auto simp: complete_def hA_def intro!: lookup_the)
  show "fst (snd c) = d" if "c \<in> set vc" for c
    using assms that by (auto simp: ready_def)
  show "release_time (source_df s) (snd (snd c)) = Inr (projr (release_time (source_df s) (snd (snd c))))"
    if "c \<in> set vc" for c
  proof -
    from assms that have "\<exists>r \<in> set (source_df s). src_id r = snd (snd c)"
      by (auto simp: ready_def)
    then show ?thesis
      unfolding release_time_def by (rule values0_filter_projr)
  qed
  show "quantity (source_df s) (snd (snd c)) = Inr (projr (quantity (source_df s) (snd (snd c))))"
    if "c \<in> set vc" for c
  proof -
    from assms that have "\<exists>r \<in> set (source_df s). src_id r = snd (snd c)"
      by (auto simp: ready_def)
    then show ?thesis
      unfolding quantity_def by (rule values0_filter_projr)
  qed
qed

lemma ready_add_constrs [simp]: "ready (add_constrs s cs) sl cl vc d = ready s sl cl vc d"
  by (simp add: ready_def complete_def)

lemma capacity_constr_ready:
  assumes "ready s sl cl vc d" "l \<in> set (trucks s)"
  shows "capacity_constr s l = Inr (capacity_c s vc l)"
proof -
  have "collect (\<lambda>(i, j, k).
        and_then (lookup (map_of (X s)) (i, j, k, l)) (\<lambda>x. Inr [Var x])) vc
      = Inr (map (\<lambda>c. Var (hX s c l)) vc)"
  proof (rule collect_single)
    fix c assume "c \<in> set vc"
    from readyD(5) [OF assms(1) this assms(2)]
    show "(case c of (i, j, k) \<Rightarrow>
        and_then (lookup (map_of (X s)) (i, j, k, l)) (\<lambda>x. Inr [Var x])) = Inr [Var (hX s c l)]"
      by (cases c) simp
  qed
  then show ?thesis
    by (simp add: capacity_constr_def readyD(1,6) [OF assms(1)] assms(2) capacity_c_def)
qed

lemma capacity_c_add_constrs [simp]: "capacity_c (add_constrs s cs) = capacity_c s"
  by (simp add: capacity_c_def hX_def hZ_def fun_eq_iff)

lemma capacity_constraints_ready:
  assumes "ready s sl cl vc d"
  shows "capacity_constraints s = Inr (add_constrs s (map (capacity_c s vc) (trucks s)))"
proof -
  have "for_each (\<lambda>l s. and_then (raising s (capacity_constr s l))
        (\<lambda>c. Inr (add_to_model s c))) (trucks s) s
     = Inr (add_constrs s (concat (map (\<lambda>l. [capacity_c s vc l]) (trucks s))))"
  proof (rule for_each_add_constrs0)
    fix l cs assume l: "l \<in> set (trucks s)"
    have "capacity_constr (add_constrs s cs) l = Inr (capacity_c (add_constrs s cs) vc l)"
      by (rule capacity_constr_ready [where sl = sl and cl = cl and d = d])
        (simp_all add: assms l)
    then show "and_then (raising (add_constrs s cs) (capacity_constr (add_constrs s cs) l))
         (\<lambda>c. Inr (add_to_model (add_constrs s cs) c))
       = Inr (add_constrs s (cs @ [capacity_c s vc l]))"
      by (simp add: add_to_model_eq)
  qed
  then show ?thesis by (simp add: capacity_constraints_def)
qed

lemma h_add_constrs [simp]:
  "hX (add_constrs s cs) = hX s" "hZ (add_constrs s cs) = hZ s"
  "hT (add_constrs s cs) = hT s" "hA (add_constrs s cs) = hA s"
  by (simp_all add: hX_def hZ_def hT_def hA_def fun_eq_iff)

lemma c_add_constrs [simp]:
  "release_c (add_constrs s cs) = release_c s"
  "assignment_c (add_constrs s cs) = assignment_c s"
  "sorting_c (add_constrs s cs) = sorting_c s"
  "arrival_day_c (add_constrs s cs) = arrival_day_c s"
  by (simp_all add: release_c_def assignment_c_def sorting_c_def sorting_e_def
      arrival_day_c_def fun_eq_iff cong: if_cong)

lemma release_constr_ready:
  assumes "ready s sl cl vc d" "c \<in> set vc" "l \<in> set (trucks s)"
  shows "release_constr s c (projr (release_time (source_df s) (snd (snd c)))) l
    = Inr (release_c s c l)"
  using readyD(5) [OF assms] readyD(7) [OF assms(1,3)]
  by (cases c) (simp add: release_constr_def release_c_def)

lemma release_constraints_ready:
  assumes "ready s sl cl vc d"
  shows "release_constraints s =
    Inr (add_constrs s (concat (map (\<lambda>c. map (release_c s c) (trucks s)) vc)))"
proof -
  have "for_each (\<lambda>c s.
          and_then (raising s (release_time (source_df s) (snd (snd c)))) (\<lambda>release.
            for_each (\<lambda>l s. and_then (raising s (release_constr s c release l))
               (\<lambda>c. Inr (add_to_model s c))) (trucks s) s)) vc s
     = Inr (add_constrs s (concat (map (\<lambda>c. map (release_c s c) (trucks s)) vc)))"
  proof (rule for_each_add_constrs0)
    fix c cs assume c: "c \<in> set vc"
    let ?s = "add_constrs s cs"
    define r where "r = projr (release_time (source_df s) (snd (snd c)))"
    have rt: "release_time (source_df s) (snd (snd c)) = Inr r"
      unfolding r_def by (rule readyD(10) [OF assms c])
    have inner: "for_each (\<lambda>l s. and_then (raising s (release_constr s c r l))
               (\<lambda>c. Inr (add_to_model s c))) (trucks s) ?s
        = Inr (add_constrs s (cs @ concat (map (\<lambda>l. [release_c s c l]) (trucks s))))"
    proof (rule for_each_add_constrs)
      fix l cs' assume l: "l \<in> set (trucks s)"
      have "release_constr (add_constrs s cs') c
          (projr (release_time (source_df (add_constrs s cs')) (snd (snd c)))) l
          = Inr (release_c (add_constrs s cs') c l)"
        by (rule release_constr_ready [where sl = sl and cl = cl and d = d and vc = vc])
          (simp_all add: assms l c)
      then show "and_then (raising (add_constrs s cs') (release_constr (add_constrs s cs') c r l))
           (\<lambda>c. Inr (add_to_model (add_constrs s cs') c))
         = Inr (add_constrs s (cs' @ [release_c s c l]))"
        by (simp add: add_to_model_eq r_def)
    qed
    show "and_then (raising ?s (release_time (source_df ?s) (snd (snd c)))) (\<lambda>release.
            for_each (\<lambda>l s. and_then (raising s (release_constr s c release l))
               (\<lambda>c. Inr (add_to_model s c))) (trucks ?s) ?s)
       = Inr (add_constrs s (cs @ map (release_c s c) (trucks s)))"
      using inner by (simp add: rt)
  qed
  then show ?thesis by (simp add: release_constraints_def readyD(1) [OF assms])
qed

lemma assignment_constr_ready:
  assumes "ready s sl cl vc d" "c \<in> set vc"
  shows "assignment_constr s c = Inr (assignment_c s c)"
proof -
  obtain i j k where c: "c = (i, j, k)" by (cases c) auto
  have "collect (\<lambda>l.
           and_then (iterable (valid_combinations s)) (\<lambda>vc.
             if (i, j, k) \<in> set vc then
               and_then (lookup (map_of (X s)) (i, j, k, l)) (\<lambda>x.
               and_then (lookup (Z s) l) (\<lambda>z. Inr [Mul (Var x) (Var z)]))
             else Inr [])) (trucks s)
      = Inr (map (\<lambda>l. Mul (Var (hX s c l)) (Var (hZ s l))) (trucks s))"
  proof (rule collect_single)
    fix l assume l: "l \<in> set (trucks s)"
    from readyD(5) [OF assms l] readyD(6) [OF assms(1) l] assms(2)
    show "and_then (iterable (valid_combinations s)) (\<lambda>vc.
             if (i, j, k) \<in> set vc then
               and_then (lookup (map_of (X s)) (i, j, k, l)) (\<lambda>x.
               and_then (lookup (Z s) l) (\<lambda>z. Inr [Mul (Var x) (Var z)]))
             else Inr []) = Inr [Mul (Var (hX s c l)) (Var (hZ s l))]"
      by (simp add: readyD(1) [OF assms(1)] c)
  qed
  then show ?thesis by (simp add: assignment_constr_def c assignment_c_def)
qed

lemma assignment_constraints_ready:
  assumes "ready s sl cl vc d"
  shows "assignment_constraints s = Inr (add_constrs s (map (assignment_c s) vc))"
proof -
  have "for_each (\<lambda>c s. and_then (raising s (assignment_constr s c))
          (\<lambda>c. Inr (add_to_model s c))) vc s
     = Inr (add_constrs s (concat (map (\<lambda>c. [assignment_c s c]) vc)))"
  proof (rule for_each_add_constrs0)
    fix c cs assume c: "c \<in> set vc"
    have "assignment_constr (add_constrs s cs) c = Inr (assignment_c (add_constrs s cs) c)"
      by (rule assignment_constr_ready [where sl = sl and cl = cl and d = d and vc = vc])
        (simp_all add: assms c)
    then show "and_then (raising (add_constrs s cs) (assignment_constr (add_constrs s cs) c))
         (\<lambda>c. Inr (add_to_model (add_constrs s cs) c))
       = Inr (add_constrs s (cs @ [assignment_c s c]))"
      by (simp add: add_to_model_eq)
  qed
  then show ?thesis by (simp add: assignment_constraints_def readyD(1) [OF assms])
qed

lemma arrival_day_constr_ready:
  assumes "ready s sl cl vc d" "l \<in> set (trucks s)"
  shows "arrival_day_constr s l = Inr (arrival_day_c s l)"
proof -
  have "collect (\<lambda>dy.
        and_then (lookup (ArrivalDayBinary s) (l, dy)) (\<lambda>a.
        and_then (lookup (Z s) l) (\<lambda>z. Inr [Mul (Var a) (Var z)]))) days
      = Inr (map (\<lambda>dy. Mul (Var (hA s l dy)) (Var (hZ s l))) days)"
    by (rule collect_single) (simp add: readyD(6,8) [OF assms])
  then show ?thesis by (simp add: arrival_day_constr_def arrival_day_c_def)
qed

lemma arrival_day_constraints_ready:
  assumes "ready s sl cl vc d"
  shows "arrival_day_constraints s = Inr (add_constrs s (map (arrival_day_c s) (trucks s)))"
proof -
  have "for_each (\<lambda>l s. and_then (raising s (arrival_day_constr s l))
        (\<lambda>c. Inr (add_to_model s c))) (trucks s) s
     = Inr (add_constrs s (concat (map (\<lambda>l. [arrival_day_c s l]) (trucks s))))"
  proof (rule for_each_add_constrs0)
    fix l cs assume l: "l \<in> set (trucks s)"
    have "arrival_day_constr (add_constrs s cs) l = Inr (arrival_day_c (add_constrs s cs) l)"
      by (rule arrival_day_constr_ready [where sl = sl and cl = cl and d = d and vc = vc])
        (simp_all add: assms l)
    then show "and_then (raising (add_constrs s cs) (arrival_day_constr (add_constrs s cs) l))
         (\<lambda>c. Inr (add_to_model (add_constrs s cs) c))
       = Inr (add_constrs s (cs @ [arrival_day_c s l]))"
      by (simp add: add_to_model_eq)
  qed
  then show ?thesis by (simp add: arrival_day_constraints_def)
qed

lemma sorting_terms_ready:
  assumes "ready s sl cl vc d" "dy \<in> set days"
  shows "sorting_terms s d dy = Inr (sorting_e s sl cl vc d dy)"
proof -
  have inner: "collect (\<lambda>l.
        and_then (iterable (valid_combinations s)) (\<lambda>vc.
          if (i, d, k) \<in> set vc then
            and_then (lookup (map_of (X s)) (i, d, k, l)) (\<lambda>x.
            and_then (quantity (source_df s) k) (\<lambda>q.
            and_then (lookup (ArrivalDayBinary s) (l, dy)) (\<lambda>a.
            Inr [Mul (Mul (Var x) (Const q)) (Var a)])))
          else Inr [])) (trucks s)
      = Inr (concat (map (\<lambda>l.
          if (i, d, k) \<in> set vc
          then [Mul (Mul (Var (hX s (i, d, k) l))
                  (Const (projr (quantity (source_df s) k)))) (Var (hA s l dy))]
          else []) (trucks s)))" for i k
  proof (rule collect_Inr)
    fix l assume l: "l \<in> set (trucks s)"
    show "and_then (iterable (valid_combinations s)) (\<lambda>vc.
          if (i, d, k) \<in> set vc then
            and_then (lookup (map_of (X s)) (i, d, k, l)) (\<lambda>x.
            and_then (quantity (source_df s) k) (\<lambda>q.
            and_then (lookup (ArrivalDayBinary s) (l, dy)) (\<lambda>a.
            Inr [Mul (Mul (Var x) (Const q)) (Var a)])))
          else Inr [])
      = Inr (if (i, d, k) \<in> set vc
          then [Mul (Mul (Var (hX s (i, d, k) l))
                  (Const (projr (quantity (source_df s) k)))) (Var (hA s l dy))]
          else [])"
    proof (cases "(i, d, k) \<in> set vc")
      case True
      define q where "q = projr (quantity (source_df s) k)"
      have qt: "quantity (source_df s) k = Inr q"
        unfolding q_def using readyD(11) [OF assms(1) True] by simp
      from readyD(5) [OF assms(1) True l] readyD(8) [OF assms(1) l assms(2)] True
      show ?thesis by (simp add: readyD(1) [OF assms(1)] qt)
    next
      case False
      then show ?thesis by (simp add: readyD(1) [OF assms(1)])
    qed
  qed
  have mid: "collect (\<lambda>k. collect (\<lambda>l.
        and_then (iterable (valid_combinations s)) (\<lambda>vc.
          if (i, d, k) \<in> set vc then
            and_then (lookup (map_of (X s)) (i, d, k, l)) (\<lambda>x.
            and_then (quantity (source_df s) k) (\<lambda>q.
            and_then (lookup (ArrivalDayBinary s) (l, dy)) (\<lambda>a.
            Inr [Mul (Mul (Var x) (Const q)) (Var a)])))
          else Inr [])) (trucks s)) cl
      = Inr (concat (map (\<lambda>k. concat (map (\<lambda>l.
          if (i, d, k) \<in> set vc
          then [Mul (Mul (Var (hX s (i, d, k) l))
                  (Const (projr (quantity (source_df s) k)))) (Var (hA s l dy))]
          else []) (trucks s))) cl))" for i
    by (rule collect_Inr) (rule inner)
  have "collect (\<lambda>i.
         if d \<noteq> i then
           and_then (iterable (consignment_list s)) (\<lambda>cl.
             collect (\<lambda>k.
               collect (\<lambda>l.
                 and_then (iterable (valid_combinations s)) (\<lambda>vc.
                   if (i, d, k) \<in> set vc then
                     and_then (lookup (map_of (X s)) (i, d, k, l)) (\<lambda>x.
                     and_then (quantity (source_df s) k) (\<lambda>q.
                     and_then (lookup (ArrivalDayBinary s) (l, dy)) (\<lambda>a.
                     Inr [Mul (Mul (Var x) (Const q)) (Var a)])))
                   else Inr [])) (trucks s)) cl)
         else Inr []) sl = Inr (sorting_e s sl cl vc d dy)"
    unfolding sorting_e_def
    by (rule collect_Inr) (simp add: readyD(3) [OF assms(1)] mid)
  then show ?thesis
    by (simp add: sorting_terms_def readyD(2) [OF assms(1)])
qed

lemma dest_lookups:
  assumes "\<exists>r \<in> set df. dst_Destination_ID r = j"
  shows "end_shift df j = Inr (projr (end_shift df j))"
    "start_shift df j = Inr (projr (start_shift df j))"
    "sorting_capacity df j = Inr (projr (sorting_capacity df j))"
  unfolding end_shift_def start_shift_def sorting_capacity_def
  by (rule values0_filter_projr [OF assms])+

lemma dest_lookups_none:
  assumes "\<not> (\<exists>r \<in> set df. dst_Destination_ID r = j)"
  shows "end_shift df j = Inl IndexError" "start_shift df j = Inl IndexError"
    "sorting_capacity df j = Inl IndexError"
  unfolding end_shift_def start_shift_def sorting_capacity_def
  by (rule values0_filter_none [OF assms])+

lemma sorting_constraints_fail:
  assumes "ready s sl cl vc d" "\<not> (\<exists>r \<in> set (destination_df s). dst_Destination_ID r = d)"
  shows "sorting_constraints s = Inl (IndexError, s)"
  by (simp add: sorting_constraints_def readyD(4) [OF assms(1)] dest_lookups_none [OF assms(2)])

lemma for_each_add_constr1:
  assumes "\<And>x cs. x \<in> set xs \<Longrightarrow> body x (add_constrs s cs) = Inr (add_constrs s (cs @ [f x]))"
  shows "for_each body xs s = Inr (add_constrs s (map f xs))"
  using for_each_add_constrs0 [of xs body s "\<lambda>x. [f x]"] assms by simp

lemma sorting_constraints_ready:
  assumes "ready s sl cl vc d" "\<exists>r \<in> set (destination_df s). dst_Destination_ID r = d"
  shows "sorting_constraints s = Inr (add_constrs s (map (sorting_c s sl cl vc d) days))"
proof -
  define e where "e = projr (end_shift (destination_df s) d)"
  define b where "b = projr (start_shift (destination_df s) d)"
  define cap where "cap = projr (sorting_capacity (destination_df s) d)"
  have lk: "end_shift (destination_df s) d = Inr e" "start_shift (destination_df s) d = Inr b"
    "sorting_capacity (destination_df s) d = Inr cap"
    unfolding e_def b_def cap_def by (rule dest_lookups [OF assms(2)])+
  have loop: "for_each (\<lambda>dy s.
       and_then (raising s (sorting_constr s d ((e - b) / 2 * cap) dy))
         (\<lambda>c. Inr (add_to_model s c))) days s
     = Inr (add_constrs s (map (sorting_c s sl cl vc d) days))"
  proof (rule for_each_add_constr1)
    fix dy cs assume dy: "dy \<in> set days"
    have "sorting_terms (add_constrs s cs) d dy = Inr (sorting_e (add_constrs s cs) sl cl vc d dy)"
      by (rule sorting_terms_ready) (simp_all add: assms dy)
    moreover have "sorting_e (add_constrs s cs) sl cl vc d dy = sorting_e s sl cl vc d dy"
      by (simp add: sorting_e_def cong: if_cong)
    ultimately show "and_then (raising (add_constrs s cs)
          (sorting_constr (add_constrs s cs) d ((e - b) / 2 * cap) dy))
         (\<lambda>c. Inr (add_to_model (add_constrs s cs) c))
       = Inr (add_constrs s (cs @ [sorting_c s sl cl vc d dy]))"
      by (simp add: sorting_constr_def add_to_model_eq sorting_c_def e_def b_def cap_def)
  qed
  show ?thesis
    unfolding sorting_constraints_def readyD(4) [OF assms(1)]
    by (simp only: iterable_simps raising_simps and_then_simps for_each.simps lk loop)
qed

subsection \<open>The arrival window and its failures\<close>

lemma extends_refl [simp]: "extends b b"
  by (simp add: extends_def same_data_def)

lemma same_data_h:
  assumes "same_data b s"
  shows "hX s = hX b" "hZ s = hZ b" "hT s = hT b" "hA s = hA b"
  using assms by (simp_all add: same_data_def hX_def hZ_def hT_def hA_def fun_eq_iff)

lemma same_data_ready: "same_data b s \<Longrightarrow> ready b sl cl vc d \<Longrightarrow> ready s sl cl vc d"
  by (simp add: same_data_def ready_def complete_def)

lemma same_data_c:
  assumes "same_data b s"
  shows "arrival_e s = arrival_e b" "window_c s = window_c b"
proof -
  from assms have t: "trucking_df s = trucking_df b" "destination_df s = destination_df b"
    by (simp_all add: same_data_def)
  show a: "arrival_e s = arrival_e b"
    by (simp add: arrival_e_def same_data_h [OF assms] t fun_eq_iff)
  show "window_c s = window_c b"
    by (simp add: window_c_def a t fun_eq_iff)
qed

lemma travel_time_lookup:
  "\<exists>r \<in> set df. trk_Origin_ID r = i \<and> trk_Destination_ID r = j \<Longrightarrow>
     travel_time df i j = Inr (projr (travel_time df i j))"
  "\<not> (\<exists>r \<in> set df. trk_Origin_ID r = i \<and> trk_Destination_ID r = j) \<Longrightarrow>
     travel_time df i j = Inl IndexError"
proof -
  assume "\<exists>r \<in> set df. trk_Origin_ID r = i \<and> trk_Destination_ID r = j"
  from values0_filter [OF this, of trk_OSRM_time] show
    "travel_time df i j = Inr (projr (travel_time df i j))"
    by (auto simp: travel_time_def)
next
  assume "\<not> (\<exists>r \<in> set df. trk_Origin_ID r = i \<and> trk_Destination_ID r = j)"
  from values0_filter_none [OF this, of trk_OSRM_time] show "travel_time df i j = Inl IndexError"
    by (simp add: travel_time_def)
qed

lemma arrival_terms_ready:
  assumes "ready s sl cl vc d" "c \<in> set vc" "l \<in> set (trucks s)"
  shows "arrival_terms s c tt l =
    Inr (Add (Add (Var (hT s l)) (Mul (Const tt) (Var (hX s c l))))
          (Mul (Const 24)
             (quicksum (map (\<lambda>d. Mul (Const (real (d - 1))) (Var (hA s l d))) days))))"
proof -
  have "collect (\<lambda>d. and_then (lookup (ArrivalDayBinary s) (l, d))
           (\<lambda>a. Inr [Mul (Const (real (d - 1))) (Var a)])) days
      = Inr (map (\<lambda>d. Mul (Const (real (d - 1))) (Var (hA s l d))) days)"
    by (rule collect_single) (simp add: readyD(8) [OF assms(1,3)])
  with readyD(5) [OF assms] readyD(7) [OF assms(1,3)] show ?thesis
    by (cases c) (simp add: arrival_terms_def)
qed

lemma window_step_ready:
  assumes "ready b sl cl vc d" "same_data b s" "c \<in> set vc" "l \<in> set (trucks b)"
  shows "window_step c (projr (start_shift (destination_df b) (fst (snd c))))
      (projr (end_shift (destination_df b) (fst (snd c))))
      (projr (travel_time (trucking_df b) (fst c) (fst (snd c)))) l s
    = Inr (add_window b (c, l) s)"
proof -
  have r: "ready s sl cl vc d" by (rule same_data_ready [OF assms(2,1)])
  have l: "l \<in> set (trucks s)" using assms(2,4) by (simp add: same_data_def)
  show ?thesis
    using arrival_terms_ready [OF r assms(3) l,
        of "projr (travel_time (trucking_df b) (fst c) (fst (snd c)))"]
    by (cases c)
      (simp add: window_step_def addVar_def
        add_window_def window_c_def arrival_e_def add_to_model_def addConstr_def
        same_data_h [OF assms(2)] declared_def Let_def)
qed

lemma same_data_add_window: "same_data b s \<Longrightarrow> same_data b (add_window b p s)"
  by (simp add: same_data_def add_window_def)

lemma same_data_fold_add_window: "same_data b s \<Longrightarrow> same_data b (fold (add_window b) ps s)"
  by (induction ps arbitrary: s) (simp_all add: same_data_add_window)

lemma fold_product:
  "fold f (List.product xs ys) = fold (\<lambda>x. fold (\<lambda>y. f (x, y)) ys) xs"
  by (induction xs) (simp_all add: fold_map o_def)

lemma extends_add_window: "extends b s \<Longrightarrow> extends b (add_window b p s)"
  unfolding extends_def
proof (elim conjE exE, intro conjI)
  fix ws cs
  assume sd: "same_data b s" and w: "vars (model s) = vars (model b) @ ws"
    and g: "\<forall>g \<in> set ws. g = declared (vname g)"
    and c: "constrs (model s) = constrs (model b) @ cs"
  show "same_data b (add_window b p s)" by (rule same_data_add_window [OF sd])
  let ?n = "declared (multiplier_name (fst (fst p)) (fst (snd (fst p))) (snd (snd (fst p))) (snd p))"
  have "vars (model (add_window b p s)) = vars (model b) @ (ws @ [?n])"
    by (simp add: add_window_def w)
  moreover have "\<forall>g \<in> set (ws @ [?n]). g = declared (vname g)" using g by simp
  ultimately show "\<exists>ws. vars (model (add_window b p s)) = vars (model b) @ ws \<and>
      (\<forall>g \<in> set ws. g = declared (vname g))" by blast
  have "constrs (model (add_window b p s)) =
      constrs (model b) @ (cs @ window_c b p (length (vars (model s))))"
    by (simp add: add_window_def c)
  then show "\<exists>cs. constrs (model (add_window b p s)) = constrs (model b) @ cs" by blast
qed

lemma extends_fold_add_window: "extends b s \<Longrightarrow> extends b (fold (add_window b) ps s)"
  by (induction ps arbitrary: s) (simp_all add: extends_add_window)

lemma extends_same_data: "extends b s \<Longrightarrow> same_data b s"
  by (simp add: extends_def)

lemma window_inner:
  assumes "ready b sl cl vc d" "extends b s" "c \<in> set vc"
  shows "for_each (window_step c (projr (start_shift (destination_df b) (fst (snd c))))
      (projr (end_shift (destination_df b) (fst (snd c))))
      (projr (travel_time (trucking_df b) (fst c) (fst (snd c))))) (trucks b) s
    = Inr (fold (\<lambda>l. add_window b (c, l)) (trucks b) s)
    \<and> extends b (fold (\<lambda>l. add_window b (c, l)) (trucks b) s)"
proof (rule for_each_fold [where I = "extends b"])
  show "extends b s" by fact
next
  fix l s' assume l: "l \<in> set (trucks b)" and e: "extends b s'"
  from window_step_ready [OF assms(1) extends_same_data [OF e] assms(3) l]
    extends_add_window [OF e]
  show "window_step c (projr (start_shift (destination_df b) (fst (snd c))))
      (projr (end_shift (destination_df b) (fst (snd c))))
      (projr (travel_time (trucking_df b) (fst c) (fst (snd c)))) l s'
      = Inr (add_window b (c, l) s') \<and> extends b (add_window b (c, l) s')"
    by simp
qed

lemma window_body_ok:
  assumes "ready b sl cl vc d" "extends b s" "c \<in> set vc" "window_data b c"
  shows "and_then (raising s (start_shift (destination_df s) (fst (snd c)))) (\<lambda>start_sh.
          and_then (raising s (end_shift (destination_df s) (fst (snd c)))) (\<lambda>end_sh.
          and_then (raising s (travel_time (trucking_df s) (fst c) (fst (snd c)))) (\<lambda>tt.
            for_each (window_step c start_sh end_sh tt) (trucks s) s)))
     = Inr (fold (\<lambda>l. add_window b (c, l)) (trucks b) s)"
proof -
  from assms(2) have sd: "destination_df s = destination_df b" "trucking_df s = trucking_df b"
    "trucks s = trucks b"
    by (simp_all add: extends_def same_data_def)
  define st where "st = projr (start_shift (destination_df b) (fst (snd c)))"
  define en where "en = projr (end_shift (destination_df b) (fst (snd c)))"
  define tt where "tt = projr (travel_time (trucking_df b) (fst c) (fst (snd c)))"
  from assms(4) have d: "\<exists>r \<in> set (destination_df b). dst_Destination_ID r = fst (snd c)"
    and t: "\<exists>r \<in> set (trucking_df b). trk_Origin_ID r = fst c \<and> trk_Destination_ID r = fst (snd c)"
    by (simp_all add: window_data_def)
  have lk: "start_shift (destination_df b) (fst (snd c)) = Inr st"
    "end_shift (destination_df b) (fst (snd c)) = Inr en"
    "travel_time (trucking_df b) (fst c) (fst (snd c)) = Inr tt"
    unfolding st_def en_def tt_def
    by (rule dest_lookups [OF d] travel_time_lookup(1) [OF t])+
  from window_inner [OF assms(1,2,3)]
  have "for_each (window_step c st en tt) (trucks b) s
      = Inr (fold (\<lambda>l. add_window b (c, l)) (trucks b) s)"
    by (simp add: st_def en_def tt_def)
  then show ?thesis by (simp add: sd lk)
qed

lemma window_body_fail:
  assumes "extends b s" "\<not> window_data b c"
  shows "and_then (raising s (start_shift (destination_df s) (fst (snd c)))) (\<lambda>start_sh.
          and_then (raising s (end_shift (destination_df s) (fst (snd c)))) (\<lambda>end_sh.
          and_then (raising s (travel_time (trucking_df s) (fst c) (fst (snd c)))) (\<lambda>tt.
            for_each (window_step c start_sh end_sh tt) (trucks s) s)))
     = Inl (IndexError, s)"
proof -
  from assms(1) have sd: "destination_df s = destination_df b" "trucking_df s = trucking_df b"
    by (simp_all add: extends_def same_data_def)
  show ?thesis
  proof (cases "\<exists>r \<in> set (destination_df b). dst_Destination_ID r = fst (snd c)")
    case False
    from dest_lookups_none(2) [OF this] show ?thesis by (simp add: sd)
  next
    case True
    with assms(2) have "\<not> (\<exists>r \<in> set (trucking_df b).
        trk_Origin_ID r = fst c \<and> trk_Destination_ID r = fst (snd c))"
      by (simp add: window_data_def)
    from travel_time_lookup(2) [OF this] dest_lookups(1,2) [OF True]
    obtain st en where "start_shift (destination_df b) (fst (snd c)) = Inr st"
      "end_shift (destination_df b) (fst (snd c)) = Inr en"
      "travel_time (trucking_df b) (fst c) (fst (snd c)) = Inl IndexError"
      by blast
    then show ?thesis by (simp add: sd)
  qed
qed

lemma window_constraints_ready:
  assumes "ready b sl cl vc d" "\<forall>c \<in> set vc. window_data b c"
  shows "window_constraints b = Inr (fold (add_window b) (List.product vc (trucks b)) b)"
proof -
  have "for_each (\<lambda>c s.
          and_then (raising s (start_shift (destination_df s) (fst (snd c)))) (\<lambda>start_sh.
          and_then (raising s (end_shift (destination_df s) (fst (snd c)))) (\<lambda>end_sh.
          and_then (raising s (travel_time (trucking_df s) (fst c) (fst (snd c)))) (\<lambda>tt.
            for_each (window_step c start_sh end_sh tt) (trucks s) s)))) vc b
      = Inr (fold (\<lambda>c. fold (\<lambda>l. add_window b (c, l)) (trucks b)) vc b)
      \<and> extends b (fold (\<lambda>c. fold (\<lambda>l. add_window b (c, l)) (trucks b)) vc b)"
  proof (rule for_each_fold [where I = "extends b"])
    show "extends b b" by simp
  next
    fix c s assume c: "c \<in> set vc" and e: "extends b s"
    from c assms(2) have w: "window_data b c" by simp
    from window_body_ok [OF assms(1) e c w] window_inner [OF assms(1) e c]
    show "and_then (raising s (start_shift (destination_df s) (fst (snd c)))) (\<lambda>start_sh.
          and_then (raising s (end_shift (destination_df s) (fst (snd c)))) (\<lambda>end_sh.
          and_then (raising s (travel_time (trucking_df s) (fst c) (fst (snd c)))) (\<lambda>tt.
            for_each (window_step c start_sh end_sh tt) (trucks s) s)))
        = Inr (fold (\<lambda>l. add_window b (c, l)) (trucks b) s)
        \<and> extends b (fold (\<lambda>l. add_window b (c, l)) (trucks b) s)"
      by simp
  qed
  then show ?thesis
    by (simp add: window_constraints_def readyD(1) [OF assms(1)] fold_product)
qed

lemma window_constraints_fail:
  assumes "ready b sl cl vc d" "c \<in> set vc" "\<not> window_data b c"
  shows "\<exists>s. window_constraints b = Inl (IndexError, s) \<and> extends b s"
proof -
  let ?body = "\<lambda>c s.
          and_then (raising s (start_shift (destination_df s) (fst (snd c)))) (\<lambda>start_sh.
          and_then (raising s (end_shift (destination_df s) (fst (snd c)))) (\<lambda>end_sh.
          and_then (raising s (travel_time (trucking_df s) (fst c) (fst (snd c)))) (\<lambda>tt.
            for_each (window_step c start_sh end_sh tt) (trucks s) s)))"
  have "case for_each ?body vc b of Inr s' \<Rightarrow> False
        | Inl (e, s') \<Rightarrow> e = IndexError \<and> extends b s'"
  proof (rule for_each_fails [where I = "extends b" and x = c])
    show "extends b b" by simp
    show "c \<in> set vc" by fact
  next
    fix s assume "extends b s"
    from window_body_fail [OF this assms(3)] show "isl (?body c s)" by simp
  next
    fix x s assume x: "x \<in> set vc" and e: "extends b s"
    show "case ?body x s of Inr s' \<Rightarrow> extends b s' | Inl (er, s') \<Rightarrow> er = IndexError \<and> extends b s'"
    proof (cases "window_data b x")
      case True
      from window_body_ok [OF assms(1) e x True] window_inner [OF assms(1) e x]
      show ?thesis by simp
    next
      case False
      from window_body_fail [OF e False] e show ?thesis by simp
    qed
  qed
  then show ?thesis
    by (auto simp: window_constraints_def readyD(1) [OF assms(1)] split: sum.splits)
qed

subsection \<open>The model after \<^verbatim>\<open>add_constraints\<close>\<close>

lemma window_cs_Nil [simp]: "window_cs b n [] = []"
  by (simp add: window_cs_def)

lemma window_cs_Cons: "window_cs b n (p # ps) = window_c b p n @ window_cs b (Suc n) ps"
proof -
  have "[n..<n + length (p # ps)] = n # [Suc n..<Suc n + length ps]"
    by (simp add: upt_conv_Cons del: upt_Suc)
  then show ?thesis by (simp add: window_cs_def del: upt_Suc)
qed

lemma fold_add_window_model:
  "vars (model (fold (add_window b) ps s)) = vars (model s) @ map multiplier_var ps"
  "constrs (model (fold (add_window b) ps s)) =
     constrs (model s) @ window_cs b (length (vars (model s))) ps"
  "objective (model (fold (add_window b) ps s)) = objective (model s)"
proof (induction ps arbitrary: s)
  case Nil
  { case 1 show ?case by simp }
  { case 2 show ?case by simp }
  { case 3 show ?case by simp }
next
  case (Cons p ps)
  have v: "vars (model (add_window b p s)) = vars (model s) @ [multiplier_var p]" for s
    by (simp add: add_window_def multiplier_var_def)
  have c: "constrs (model (add_window b p s)) =
      constrs (model s) @ window_c b p (length (vars (model s)))" for s
    by (simp add: add_window_def)
  have ob: "objective (model (add_window b p s)) = objective (model s)" for s
    by (simp add: add_window_def)
  { case 1 show ?case by (simp add: Cons.IH(1) v) }
  { case 2 show ?case by (simp add: Cons.IH(2) v c window_cs_Cons) }
  { case 3 show ?case by (simp add: Cons.IH(3) ob) }
qed

lemma same_data_add_constrs [simp]: "same_data s (add_constrs s cs)"
  by (simp add: same_data_def)

lemma same_data_trans: "same_data a b \<Longrightarrow> same_data b c \<Longrightarrow> same_data a c"
  by (simp add: same_data_def)

lemma same_data_cs:
  assumes "same_data b s"
  shows "capacity_c s = capacity_c b" "release_c s = release_c b"
    "assignment_c s = assignment_c b" "sorting_c s = sorting_c b"
    "arrival_day_c s = arrival_day_c b"
proof -
  from assms have t: "source_df s = source_df b" "destination_df s = destination_df b"
    "trucks s = trucks b"
    by (simp_all add: same_data_def)
  note h = same_data_h [OF assms]
  show "capacity_c s = capacity_c b" by (simp add: capacity_c_def h fun_eq_iff)
  show "release_c s = release_c b" by (simp add: release_c_def h t fun_eq_iff)
  show "assignment_c s = assignment_c b" by (simp add: assignment_c_def h t fun_eq_iff)
  show "sorting_c s = sorting_c b"
    by (simp add: sorting_c_def sorting_e_def h t fun_eq_iff cong: if_cong)
  show "arrival_day_c s = arrival_day_c b" by (simp add: arrival_day_c_def h fun_eq_iff)
qed

lemma window_data_cong:
  "same_data b s \<Longrightarrow> window_data s c = window_data b c"
  by (simp add: window_data_def same_data_def)

lemma window_cs_cong: "same_data b s \<Longrightarrow> window_cs s = window_cs b"
  by (simp add: window_cs_def same_data_c fun_eq_iff)

lemma add_constraints_ready:
  assumes r: "ready s sl cl vc d" and w: "\<forall>c \<in> set vc. window_data s c"
    and dr: "\<exists>r \<in> set (destination_df s). dst_Destination_ID r = d"
  shows "\<exists>s'. add_constraints s = Inr s' \<and> same_data s s' \<and>
    objective (model s') = objective (model s) \<and>
    vars (model s') = vars (model s) @ map multiplier_var (List.product vc (trucks s)) \<and>
    constrs (model s') = constrs (model s)
      @ map (capacity_c s vc) (trucks s)
      @ concat (map (\<lambda>c. map (release_c s c) (trucks s)) vc)
      @ window_cs s (length (vars (model s))) (List.product vc (trucks s))
      @ map (assignment_c s) vc
      @ map (sorting_c s sl cl vc d) days
      @ map (arrival_day_c s) (trucks s)"
proof -
  define F1 where "F1 = map (capacity_c s vc) (trucks s)"
  define F2 where "F2 = concat (map (\<lambda>c. map (release_c s c) (trucks s)) vc)"
  define s2 where "s2 = add_constrs s (F1 @ F2)"
  define s3 where "s3 = fold (add_window s2) (List.product vc (trucks s2)) s2"
  define s4 where "s4 = add_constrs s3 (map (assignment_c s3) vc)"
  define s5 where "s5 = add_constrs s4 (map (sorting_c s4 sl cl vc d) days)"
  define s6 where "s6 = add_constrs s5 (map (arrival_day_c s5) (trucks s5))"
  have e1: "capacity_constraints s = Inr (add_constrs s F1)"
    unfolding F1_def by (rule capacity_constraints_ready [OF r])
  have e2: "release_constraints (add_constrs s F1) = Inr s2"
    using release_constraints_ready [of "add_constrs s F1" sl cl vc d] r
    by (simp add: s2_def F2_def)
  have sd2: "same_data s s2" by (simp add: s2_def)
  have r2: "ready s2 sl cl vc d" using r by (simp add: s2_def)
  have w2: "\<forall>c \<in> set vc. window_data s2 c" using w by (simp add: window_data_cong [OF sd2])
  have e3: "window_constraints s2 = Inr s3"
    unfolding s3_def by (rule window_constraints_ready [OF r2 w2])
  have sd23: "same_data s2 s3" unfolding s3_def by (rule same_data_fold_add_window) (simp add: same_data_def)
  have sd3: "same_data s s3" by (rule same_data_trans [OF sd2 sd23])
  have r3: "ready s3 sl cl vc d" by (rule same_data_ready [OF sd3 r])
  have e4: "assignment_constraints s3 = Inr s4"
    unfolding s4_def by (rule assignment_constraints_ready [OF r3])
  have sd4: "same_data s s4" unfolding s4_def by (rule same_data_trans [OF sd3]) simp
  have r4: "ready s4 sl cl vc d" by (rule same_data_ready [OF sd4 r])
  have dr4: "\<exists>r \<in> set (destination_df s4). dst_Destination_ID r = d"
    using dr sd4 by (simp add: same_data_def)
  have e5: "sorting_constraints s4 = Inr s5"
    unfolding s5_def by (rule sorting_constraints_ready [OF r4 dr4])
  have sd5: "same_data s s5" unfolding s5_def by (rule same_data_trans [OF sd4]) simp
  have r5: "ready s5 sl cl vc d" by (rule same_data_ready [OF sd5 r])
  have e6: "arrival_day_constraints s5 = Inr s6"
    unfolding s6_def by (rule arrival_day_constraints_ready [OF r5])
  have sd6: "same_data s s6" unfolding s6_def by (rule same_data_trans [OF sd5]) simp
  have run: "add_constraints s = Inr s6"
    by (simp add: add_constraints_def e1 e2 e3 e4 e5 e6)
  have t: "trucks s2 = trucks s" "trucks s5 = trucks s"
    using sd2 sd5 by (simp_all add: same_data_def)
  have v: "vars (model s6) = vars (model s) @ map multiplier_var (List.product vc (trucks s))"
    by (simp add: s6_def s5_def s4_def s3_def fold_add_window_model t) (simp add: s2_def)
  have ob: "objective (model s6) = objective (model s)"
    by (simp add: s6_def s5_def s4_def s3_def fold_add_window_model t) (simp add: s2_def)
  have c2: "constrs (model s2) = constrs (model s) @ F1 @ F2"
    and v2: "vars (model s2) = vars (model s)"
    by (simp_all add: s2_def)
  have c3: "constrs (model s3) = constrs (model s2)
      @ window_cs s (length (vars (model s))) (List.product vc (trucks s))"
    by (simp add: s3_def fold_add_window_model t v2 window_cs_cong [OF sd2])
  have c4: "constrs (model s4) = constrs (model s3) @ map (assignment_c s) vc"
    by (simp add: s4_def same_data_cs [OF sd3])
  have c5: "constrs (model s5) = constrs (model s4) @ map (sorting_c s sl cl vc d) days"
    by (simp add: s5_def same_data_cs [OF sd4])
  have c6: "constrs (model s6) = constrs (model s5) @ map (arrival_day_c s) (trucks s)"
    by (simp add: s6_def same_data_cs [OF sd5] t)
  have c: "constrs (model s6) = constrs (model s) @ F1 @ F2
      @ window_cs s (length (vars (model s))) (List.product vc (trucks s))
      @ map (assignment_c s) vc @ map (sorting_c s sl cl vc d) days
      @ map (arrival_day_c s) (trucks s)"
    by (simp add: c6 c5 c4 c3 c2)
  show ?thesis
    by (rule exI [of _ s6]) (simp add: run sd6 v c ob F1_def F2_def)
qed

lemma extends_add_constrs: "extends b s \<Longrightarrow> extends b (add_constrs s cs)"
  by (auto simp: extends_def same_data_def)

lemma extends_vars: "extends b s \<Longrightarrow> length (vars (model b)) \<le> length (vars (model s))"
  by (auto simp: extends_def)

lemma extends_constrs: "extends b s \<Longrightarrow> \<exists>cs. constrs (model s) = constrs (model b) @ cs"
  by (auto simp: extends_def)

lemma add_constraints_fail:
  assumes r: "ready s sl cl vc d"
    and bad: "\<not> ((\<forall>c \<in> set vc. window_data s c) \<and>
      (\<exists>r \<in> set (destination_df s). dst_Destination_ID r = d))"
  shows "\<exists>s'. add_constraints s = Inl (IndexError, s') \<and>
    extends (add_constrs s (map (capacity_c s vc) (trucks s)
      @ concat (map (\<lambda>c. map (release_c s c) (trucks s)) vc))) s'"
proof -
  define F1 where "F1 = map (capacity_c s vc) (trucks s)"
  define F2 where "F2 = concat (map (\<lambda>c. map (release_c s c) (trucks s)) vc)"
  define s2 where "s2 = add_constrs s (F1 @ F2)"
  have e1: "capacity_constraints s = Inr (add_constrs s F1)"
    unfolding F1_def by (rule capacity_constraints_ready [OF r])
  have e2: "release_constraints (add_constrs s F1) = Inr s2"
    using release_constraints_ready [of "add_constrs s F1" sl cl vc d] r
    by (simp add: s2_def F2_def)
  have sd2: "same_data s s2" by (simp add: s2_def)
  have r2: "ready s2 sl cl vc d" using r by (simp add: s2_def)
  show ?thesis
  proof (cases "\<forall>c \<in> set vc. window_data s c")
    case False
    then obtain c where c: "c \<in> set vc" "\<not> window_data s2 c"
      by (auto simp: window_data_cong [OF sd2])
    from window_constraints_fail [OF r2 c] obtain s' where
      e3: "window_constraints s2 = Inl (IndexError, s')" and x: "extends s2 s'" by blast
    have "add_constraints s = Inl (IndexError, s')"
      by (simp add: add_constraints_def e1 e2 e3)
    with x show ?thesis
      unfolding s2_def F1_def F2_def by blast
  next
    case True
    with bad have nd: "\<not> (\<exists>r \<in> set (destination_df s). dst_Destination_ID r = d)" by simp
    define s3 where "s3 = fold (add_window s2) (List.product vc (trucks s2)) s2"
    define s4 where "s4 = add_constrs s3 (map (assignment_c s3) vc)"
    have w2: "\<forall>c \<in> set vc. window_data s2 c" using True by (simp add: window_data_cong [OF sd2])
    have e3: "window_constraints s2 = Inr s3"
      unfolding s3_def by (rule window_constraints_ready [OF r2 w2])
    have x3: "extends s2 s3" unfolding s3_def by (rule extends_fold_add_window) simp
    have sd3: "same_data s s3"
      by (rule same_data_trans [OF sd2 extends_same_data [OF x3]])
    have r3: "ready s3 sl cl vc d" by (rule same_data_ready [OF sd3 r])
    have e4: "assignment_constraints s3 = Inr s4"
      unfolding s4_def by (rule assignment_constraints_ready [OF r3])
    have x4: "extends s2 s4" unfolding s4_def by (rule extends_add_constrs [OF x3])
    have sd4: "same_data s s4" by (rule same_data_trans [OF sd2 extends_same_data [OF x4]])
    have r4: "ready s4 sl cl vc d" by (rule same_data_ready [OF sd4 r])
    have nd4: "\<not> (\<exists>r \<in> set (destination_df s4). dst_Destination_ID r = d)"
      using nd sd4 by (simp add: same_data_def)
    have e5: "sorting_constraints s4 = Inl (IndexError, s4)"
      by (rule sorting_constraints_fail [OF r4 nd4])
    have "add_constraints s = Inl (IndexError, s4)"
      by (simp add: add_constraints_def e1 e2 e3 e4 e5)
    with x4 show ?thesis
      unfolding s2_def F1_def F2_def by blast
  qed
qed

lemma handles_ok_same_data:
  assumes "handles_ok s" "same_data s s'" "vars (model s') = vars (model s) @ map multiplier_var ps"
  shows "handles_ok s'"
proof (rule handles_ok_extend [OF assms(1,3)])
  fix g assume "g \<in> set (map multiplier_var ps)"
  then show "g = declared (vname g)" by (auto simp: multiplier_var_def)
qed (use assms(2) in \<open>simp_all add: same_data_def\<close>)

lemma selection_mem:
  assumes "c \<in> set (selection src sl d)"
  shows "fst (snd c) = d" "fst c \<in> set sl" "fst c \<noteq> d"
    "\<exists>r \<in> set src. src_id r = snd (snd c) \<and> src_Origin_ID r = fst c \<and> src_Destination_ID r = d"
  using assms
  by (auto simp: selection_def combinations_def routes_def route_ids_def split: if_splits)

lemma handles_ok_new [simp]: "handles_ok (DHL_Optimization src df trk)"
  by (simp add: handles_ok_def DHL_Optimization_def Model_def)

lemma length_product_300 [simp]: "length (List.product vc range_300) = length vc * 300"
  by (simp add: length_product)

lemma normalize_shift_times_simps [simp]:
  "normalize_shift_times [] = Inl ValueError"
  "dst \<noteq> [] \<Longrightarrow> normalize_shift_times dst = Inr (normalized dst)"
  by (simp_all add: normalize_shift_times_def normalized_def)

lemma tables_ok_rows: "tables_ok src dst trk sl d \<Longrightarrow> dst \<noteq> []"
  by (auto simp: tables_ok_def normalized_def)

lemma build_empty:
  "build src [] trk sl d = Inl (ValueError, DHL_Optimization src [] trk)"
  "vars (model (DHL_Optimization src [] trk)) = []"
  "constrs (model (DHL_Optimization src [] trk)) = []"
  "valid_combinations (DHL_Optimization src [] trk) = None"
  by (simp_all add: build_def raising_def and_then_def DHL_Optimization_def Model_def)

lemma build_cases:
  "(tables_ok src dst trk sl d \<longrightarrow> (\<exists>s. build src dst trk sl d = Inr s \<and> built src dst trk sl d s)) \<and>
   (dst \<noteq> [] \<and> \<not> tables_ok src dst trk sl d \<longrightarrow>
      (\<exists>s. build src dst trk sl d = Inl (IndexError, s) \<and>
         valid_combinations s = Some (selection src sl d) \<and>
         300 * length (selection src sl d) + 2700 \<le> length (vars (model s)) \<and>
         300 + 300 * length (selection src sl d) \<le> length (constrs (model s))))"
proof (cases "dst = []")
  case True
  then show ?thesis using tables_ok_rows [of src dst trk sl d] by auto
next
  case rows: False
  let ?new = "DHL_Optimization src (normalized dst) trk"
  define vc where "vc = selection src sl d"
  define cl where "cl = consignments src (routes sl [d])"
  have src0: "source_df ?new = src" "destination_df ?new = normalized dst"
    "trucking_df ?new = trk" "vars (model ?new) = []" "constrs (model ?new) = []"
    by (simp_all add: DHL_Optimization_def Model_def)
  from initialize_model_post [OF handles_ok_new, of src "normalized dst" trk sl d]
  obtain s0 where init: "initialize_model ?new sl d = Inr s0" and ok0: "handles_ok s0"
    and c0: "complete s0 vc" and i0: "initialized s0 sl d"
    and t0: "source_df s0 = src" "destination_df s0 = normalized dst"
      "trucking_df s0 = trk"
    and cs0: "constrs (model s0) = []"
    and v0: "length (vars (model s0)) = 300 * length vc + 2700"
    unfolding src0 vc_def by auto
  have tr0: "trucks s0 = range_300" using i0 by (simp add: initialized_def)
  have r0: "ready s0 sl cl vc d"
    using c0 i0 selection_mem(1,4) [of _ src sl d]
    by (fastforce simp: ready_def initialized_def t0 vc_def cl_def)
  have wd: "(\<forall>c \<in> set vc. window_data s0 c) \<and>
      (\<exists>r \<in> set (destination_df s0). dst_Destination_ID r = d) \<longleftrightarrow> tables_ok src dst trk sl d"
    using selection_mem(1) [of _ src sl d]
    by (auto simp: window_data_def tables_ok_def t0 vc_def)
  have b: "build src dst trk sl d = add_constraints s0"
    using rows by (simp add: build_def raising_def and_then_def init)
  show ?thesis
  proof (intro conjI impI)
    assume ok: "tables_ok src dst trk sl d"
    with wd have w: "\<forall>c \<in> set vc. window_data s0 c"
      and dr: "\<exists>r \<in> set (destination_df s0). dst_Destination_ID r = d" by simp_all
    from add_constraints_ready [OF r0 w dr] obtain s' where
      run: "add_constraints s0 = Inr s'" and sd: "same_data s0 s'"
      and v: "vars (model s') = vars (model s0) @ map multiplier_var (List.product vc (trucks s0))"
      and c: "constrs (model s') = constrs (model s0)
        @ map (capacity_c s0 vc) (trucks s0)
        @ concat (map (\<lambda>c. map (release_c s0 c) (trucks s0)) vc)
        @ window_cs s0 (length (vars (model s0))) (List.product vc (trucks s0))
        @ map (assignment_c s0) vc
        @ map (sorting_c s0 sl cl vc d) days
        @ map (arrival_day_c s0) (trucks s0)"
      by blast
    have ok': "handles_ok s'" by (rule handles_ok_same_data [OF ok0 sd v])
    have r': "ready s' sl cl vc d" by (rule same_data_ready [OF sd r0])
    have f': "trucks s' = range_300" "source_df s' = src"
      "destination_df s' = normalized dst" "trucking_df s' = trk"
      using sd tr0 t0 by (simp_all add: same_data_def)
    have tk: "take (300 * length vc + 2700) (vars (model s')) = vars (model s0)"
      by (simp add: v v0 [symmetric])
    have "built src dst trk sl d s'"
      unfolding built_def vc_def [symmetric] cl_def [symmetric]
      by (simp add: ok' r' f' tk v [unfolded tr0] c [unfolded tr0 cs0 v0] v0
          same_data_cs [OF sd] window_cs_cong [OF sd])
    with run b show "\<exists>s. build src dst trk sl d = Inr s \<and> built src dst trk sl d s"
      by auto
  next
    assume "dst \<noteq> [] \<and> \<not> tables_ok src dst trk sl d"
    with wd have bad: "\<not> ((\<forall>c \<in> set vc. window_data s0 c) \<and>
      (\<exists>r \<in> set (destination_df s0). dst_Destination_ID r = d))" by simp
    from add_constraints_fail [OF r0 bad] obtain s' where
      run: "add_constraints s0 = Inl (IndexError, s')"
      and x: "extends (add_constrs s0 (map (capacity_c s0 vc) (trucks s0)
        @ concat (map (\<lambda>c. map (release_c s0 c) (trucks s0)) vc))) s'"
      by blast
    from extends_same_data [OF x] i0 have "valid_combinations s' = Some vc"
      by (simp add: same_data_def initialized_def vc_def t0)
    moreover from extends_vars [OF x] have "300 * length vc + 2700 \<le> length (vars (model s'))"
      by (simp add: v0)
    moreover from extends_constrs [OF x]
    have "300 + 300 * length vc \<le> length (constrs (model s'))"
      by (auto simp: cs0 tr0 length_concat o_def sum_list_triv)
    ultimately show "\<exists>s. build src dst trk sl d = Inl (IndexError, s) \<and>
         valid_combinations s = Some (selection src sl d) \<and>
         300 * length (selection src sl d) + 2700 \<le> length (vars (model s)) \<and>
         300 + 300 * length (selection src sl d) \<le> length (constrs (model s))"
      using run b by (auto simp: vc_def)
  qed
qed


subsection \<open>The built model\<close>

lemma build_Inr_built:
  assumes "build src dst trk sl d = Inr s"
  shows "built src dst trk sl d s" "tables_ok src dst trk sl d"
proof -
  have rows: "dst \<noteq> []"
    using assms build_empty(1) [of src trk sl d] by auto
  show t: "tables_ok src dst trk sl d"
  proof (rule ccontr)
    assume "\<not> tables_ok src dst trk sl d"
    with build_cases [of src dst trk sl d] assms rows show False by auto
  qed
  with build_cases [of src dst trk sl d] assms show "built src dst trk sl d s" by auto
qed

lemma built_facts:
  assumes "built src dst trk sl d s"
  shows "handles_ok s" "ready s sl (consignments src (routes sl [d])) (selection src sl d) d"
    "trucks s = range_300" "valid_combinations s = Some (selection src sl d)"
    "source_df s = src" "destination_df s = normalized dst" "trucking_df s = trk"
proof -
  from assms show r: "ready s sl (consignments src (routes sl [d])) (selection src sl d) d"
    and "handles_ok s" "trucks s = range_300" "source_df s = src"
    "destination_df s = normalized dst" "trucking_df s = trk"
    by (simp_all add: built_def)
  from r show "valid_combinations s = Some (selection src sl d)" by (simp add: ready_def)
qed

lemma built_handles:
  assumes "built src dst trk sl d s" "l \<in> set (trucks s)"
  shows "Z s l = Some (hZ s l)" "handle (model s) (hZ s l) (Z_name l)"
    "T s l = Some (hT s l)" "handle (model s) (hT s l) (T_name l)"
    "dy \<in> set days \<Longrightarrow> ArrivalDayBinary s (l, dy) = Some (hA s l dy)"
    "dy \<in> set days \<Longrightarrow> handle (model s) (hA s l dy) (ArrivalDayBinary_name l dy)"
    "c \<in> set (selection src sl d) \<Longrightarrow>
       map_of (X s) (fst c, fst (snd c), snd (snd c), l) = Some (hX s c l)"
    "c \<in> set (selection src sl d) \<Longrightarrow>
       handle (model s) (hX s c l) (X_name (fst c) (fst (snd c)) (snd (snd c)) l)"
proof -
  note ok = built_facts(1) [OF assms(1)]
  from built_facts(2) [OF assms(1)] have c: "complete s (selection src sl d)"
    by (simp add: ready_def)
  from c assms(2) show z: "Z s l = Some (hZ s l)" by (auto simp: complete_def hZ_def)
  from ok z show "handle (model s) (hZ s l) (Z_name l)" by (simp add: handles_ok_def)
  from c assms(2) show t: "T s l = Some (hT s l)" by (auto simp: complete_def hT_def)
  from ok t show "handle (model s) (hT s l) (T_name l)" by (simp add: handles_ok_def)
  show a: "ArrivalDayBinary s (l, dy) = Some (hA s l dy)" if "dy \<in> set days"
    using c assms(2) that by (auto simp: complete_def hA_def)
  show "handle (model s) (hA s l dy) (ArrivalDayBinary_name l dy)" if "dy \<in> set days"
    using ok a [OF that] by (simp add: handles_ok_def)
  show x: "map_of (X s) (fst c, fst (snd c), snd (snd c), l) = Some (hX s c l)"
    if "c \<in> set (selection src sl d)" for c
    using c assms(2) that by (cases c) (force simp: complete_def hX_def)
  show "handle (model s) (hX s c l) (X_name (fst c) (fst (snd c)) (snd (snd c)) l)"
    if "c \<in> set (selection src sl d)" for c
    using ok x [OF that] by (simp add: handles_ok_def)
qed

lemma feasible_binary:
  assumes "feasible m v" "handle m h n" "vtype (declared n) = BINARY"
  shows "v h = 0 \<or> v h = 1"
proof -
  from assms(2) have "h < length (vars m)" "vars m ! h = declared n"
    by (simp_all add: handle_def)
  with assms(1) have "in_domain (declared n) (v h)" by (auto simp: feasible_def)
  with assms(3) show ?thesis by (simp add: in_domain_def)
qed

lemma feasible_constr: "feasible m v \<Longrightarrow> c \<in> set (constrs m) \<Longrightarrow> holds v c"
  by (simp add: feasible_def)

lemma built_constrs:
  assumes "built src dst trk sl d s"
  shows "l \<in> set (trucks s) \<Longrightarrow> capacity_c s (selection src sl d) l \<in> set (constrs (model s))"
    "c \<in> set (selection src sl d) \<Longrightarrow> l \<in> set (trucks s) \<Longrightarrow>
       release_c s c l \<in> set (constrs (model s))"
    "c \<in> set (selection src sl d) \<Longrightarrow> assignment_c s c \<in> set (constrs (model s))"
    "l \<in> set (trucks s) \<Longrightarrow> arrival_day_c s l \<in> set (constrs (model s))"
proof -
  from assms have t: "trucks s = range_300" by (simp add: built_def)
  from assms have c: "constrs (model s) =
       map (capacity_c s (selection src sl d)) range_300
       @ concat (map (\<lambda>c. map (release_c s c) range_300) (selection src sl d))
       @ window_cs s (300 * length (selection src sl d) + 2700)
           (List.product (selection src sl d) range_300)
       @ map (assignment_c s) (selection src sl d)
       @ map (sorting_c s sl (consignments src (routes sl [d])) (selection src sl d) d) days
       @ map (arrival_day_c s) range_300"
    by (simp add: built_def)
  show "l \<in> set (trucks s) \<Longrightarrow> capacity_c s (selection src sl d) l \<in> set (constrs (model s))"
    unfolding c t by simp
  show "c \<in> set (selection src sl d) \<Longrightarrow> l \<in> set (trucks s) \<Longrightarrow>
       release_c s c l \<in> set (constrs (model s))"
    unfolding c t by auto
  show "c \<in> set (selection src sl d) \<Longrightarrow> assignment_c s c \<in> set (constrs (model s))"
    unfolding c t by simp
  show "l \<in> set (trucks s) \<Longrightarrow> arrival_day_c s l \<in> set (constrs (model s))"
    unfolding c t by simp
qed

lemma truck_used:
  assumes "built src dst trk sl d s" "feasible (model s) v" "l \<in> set (trucks s)"
  shows "v (hZ s l) = 1"
proof -
  from feasible_constr [OF assms(2) built_constrs(4) [OF assms(1,3)]]
  have "(\<Sum>dy\<leftarrow>days. v (hA s l dy) * v (hZ s l)) = 1"
    by (simp add: arrival_day_c_def o_def)
  then have "(\<Sum>dy\<leftarrow>days. v (hA s l dy)) * v (hZ s l) = 1"
    by (simp add: sum_list_mult_const)
  then have "v (hZ s l) \<noteq> 0" by auto
  moreover from feasible_binary [OF assms(2) built_handles(2) [OF assms(1,3)]]
  have "v (hZ s l) = 0 \<or> v (hZ s l) = 1" by (simp add: declared_def)
  ultimately show ?thesis by simp
qed

lemma one_arrival_day:
  assumes "built src dst trk sl d s" "feasible (model s) v" "l \<in> set (trucks s)"
  shows "(\<Sum>dy\<leftarrow>days. v (hA s l dy)) = 1"
proof -
  from feasible_constr [OF assms(2) built_constrs(4) [OF assms(1,3)]]
  have "(\<Sum>dy\<leftarrow>days. v (hA s l dy) * v (hZ s l)) = 1"
    by (simp add: arrival_day_c_def o_def)
  then show ?thesis by (simp add: truck_used [OF assms])
qed


lemma by_name_handle: "handle (model s) h n \<Longrightarrow> by_name s f h = f n"
  by (simp add: by_name_def handle_def)

lemma by_name_domain:
  assumes "handles_ok s" "\<And>n. in_domain (declared n) (f n)" "h < length (vars (model s))"
  shows "in_domain (vars (model s) ! h) (by_name s f h)"
proof -
  from assms(1,3) have "vars (model s) ! h = declared (vname (vars (model s) ! h))"
    by (simp add: handles_ok_def)
  then show ?thesis using assms(2) [of "vname (vars (model s) ! h)"]
    by (simp add: by_name_def)
qed

lemma window_cs_mem:
  "c \<in> set (window_cs b n ps) \<longleftrightarrow> (\<exists>r < length ps. c \<in> set (window_c b (ps ! r) (n + r)))"
proof (induction ps arbitrary: n)
  case Nil
  show ?case by simp
next
  case (Cons p ps)
  have "c \<in> set (window_cs b n (p # ps)) \<longleftrightarrow>
      c \<in> set (window_c b p n) \<or> (\<exists>r < length ps. c \<in> set (window_c b (ps ! r) (Suc n + r)))"
    by (simp only: window_cs_Cons set_append Un_iff Cons.IH)
  also have "\<dots> \<longleftrightarrow> (\<exists>r < Suc (length ps). c \<in> set (window_c b ((p # ps) ! r) (n + r)))"
    by (simp only: Ex_less_Suc2 nth_Cons_0 nth_Cons_Suc add_0_right add_Suc_right add_Suc)
  finally show ?case by simp
qed


lemma built_multiplier:
  assumes "built src dst trk sl d s"
    and "r < length (List.product (selection src sl d) range_300)"
  shows "handle (model s) (300 * length (selection src sl d) + 2700 + r)
    (multiplier_name (fst (fst (List.product (selection src sl d) range_300 ! r)))
       (fst (snd (fst (List.product (selection src sl d) range_300 ! r))))
       (snd (snd (fst (List.product (selection src sl d) range_300 ! r))))
       (snd (List.product (selection src sl d) range_300 ! r)))"
proof -
  let ?N = "300 * length (selection src sl d) + 2700"
  let ?ps = "List.product (selection src sl d) range_300"
  from assms(1) have v: "vars (model s) = take ?N (vars (model s)) @ map multiplier_var ?ps"
    and len: "length (vars (model s)) = 600 * length (selection src sl d) + 2700"
    by (simp_all add: built_def)
  have lt: "length (take ?N (vars (model s))) = ?N" using len by simp
  have "vars (model s) ! (?N + r) = (take ?N (vars (model s)) @ map multiplier_var ?ps) ! (?N + r)"
    using v by simp
  also have "\<dots> = map multiplier_var ?ps ! r"
    using nth_append_length_plus [of "take ?N (vars (model s))" "map multiplier_var ?ps" r] lt
    by simp
  also have "\<dots> = multiplier_var (?ps ! r)" using assms(2) by simp
  finally have "vars (model s) ! (?N + r) = multiplier_var (?ps ! r)" .
  moreover have "?N + r < length (vars (model s))" using assms(2) len by simp
  ultimately show ?thesis by (simp add: handle_def multiplier_var_def)
qed


lemma built_feasible_iff:
  assumes "built src dst trk sl d s"
  shows "feasible (model s) v \<longleftrightarrow>
    (\<forall>h < length (vars (model s)). in_domain (vars (model s) ! h) (v h)) \<and>
    (\<forall>l \<in> set range_300. holds v (capacity_c s (selection src sl d) l)) \<and>
    (\<forall>c \<in> set (selection src sl d). \<forall>l \<in> set range_300. holds v (release_c s c l)) \<and>
    (\<forall>r < length (List.product (selection src sl d) range_300).
       \<forall>c \<in> set (window_c s (List.product (selection src sl d) range_300 ! r)
           (300 * length (selection src sl d) + 2700 + r)). holds v c) \<and>
    (\<forall>c \<in> set (selection src sl d). holds v (assignment_c s c)) \<and>
    (\<forall>dy \<in> set days. holds v (sorting_c s sl (consignments src (routes sl [d]))
        (selection src sl d) d dy)) \<and>
    (\<forall>l \<in> set range_300. holds v (arrival_day_c s l))"
proof -
  from assms have c: "constrs (model s) =
       map (capacity_c s (selection src sl d)) range_300
       @ concat (map (\<lambda>c. map (release_c s c) range_300) (selection src sl d))
       @ window_cs s (300 * length (selection src sl d) + 2700)
           (List.product (selection src sl d) range_300)
       @ map (assignment_c s) (selection src sl d)
       @ map (sorting_c s sl (consignments src (routes sl [d])) (selection src sl d) d) days
       @ map (arrival_day_c s) range_300"
    by (simp add: built_def)
  show ?thesis
    unfolding feasible_def c
    by (simp only: set_append ball_Un set_map ball_simps set_concat window_cs_mem)
      (auto simp: window_cs_mem)
qed


subsection \<open>The example run\<close>

lemma example_selection [simp]:
  "selection (example_source m) [''A''] ''D'' = [(''A'', ''D'', 1)]"
  "consignments (example_source m) (routes [''A''] [''D'']) = [1]"
  by (simp_all add: selection_def combinations_def consignments_def routes_def route_ids_def
      example_source_def)

lemma example_tables:
  "start_shift (normalized example_destination) ''D'' = Inr 7"
  "end_shift (normalized example_destination) ''D'' = Inr 19"
  "sorting_capacity (normalized example_destination) ''D'' = Inr 20"
  "travel_time example_trucking ''A'' ''D'' = Inr 1"
  "release_time (example_source m) 1 = Inr 8"
  "quantity (example_source m) 1 = Inr 10"
  by (simp_all add: start_shift_def end_shift_def sorting_capacity_def travel_time_def
      release_time_def quantity_def values0_def normalized_def normalize_row_def
      normalize_def clock_hours_def example_destination_def example_trucking_def
      example_source_def Let_def)

lemma example_tables_ok:
  "tables_ok (example_source m) example_destination example_trucking [''A''] ''D''"
  by (simp add: tables_ok_def normalized_def normalize_row_def
      example_destination_def example_trucking_def)

lemma example_build:
  "\<exists>s. build (example_source m) example_destination example_trucking [''A''] ''D'' = Inr s"
  using build_cases [of "example_source m" example_destination example_trucking "[''A'']" "''D''"]
    example_tables_ok [of m]
  by blast

lemma example_values_domain: "in_domain (declared n) (example_values n)"
  by (cases n) (simp_all add: in_domain_def declared_def example_values_def)

lemma sum_list_delta_none:
  "a \<notin> set xs \<Longrightarrow> sum_list (map (\<lambda>x. if x = a then c else (0::real)) xs) = 0"
  by (induction xs) auto

lemma sum_list_delta:
  assumes "distinct xs" "a \<in> set xs" "\<And>x. x \<in> set xs \<Longrightarrow> g x = (if x = a then c else (0::real))"
  shows "sum_list (map g xs) = c"
proof -
  have "sum_list (map g xs) = sum_list (map (\<lambda>x. if x = a then c else 0) xs)"
    by (rule arg_cong [where f = sum_list]) (simp add: assms(3))
  also have "\<dots> = c"
    using assms(1,2) by (induction xs) (auto simp: sum_list_delta_none)
  finally show ?thesis .
qed

lemma range_300_facts: "distinct range_300" "0 \<in> set range_300"
  by (simp_all add: range_300_def)

lemma days_facts: "distinct days" "1 \<in> set days"
  by (simp_all add: days_def)


lemma example_feasible:
  assumes "build (example_source m) example_destination example_trucking [''A''] ''D'' = Inr s"
  shows "feasible (model s) (by_name s example_values)"
proof -
  let ?v = "by_name s example_values"
  let ?c = "(''A'', ''D'', 1::int)"
  note b = build_Inr_built(1) [OF assms]
  note f = built_facts [OF b]
  have tr: "set (trucks s) = set range_300" by (simp add: f(3))
  have vX: "?v (hX s ?c l) = (if l = 0 then 1 else 0)" if "l \<in> set range_300" for l
    using by_name_handle [OF built_handles(8) [OF b, of l ?c], of example_values] that
    by (simp add: tr example_values_def)
  have vZ: "?v (hZ s l) = 1" if "l \<in> set range_300" for l
    using by_name_handle [OF built_handles(2) [OF b, of l], of example_values] that
    by (simp add: tr example_values_def)
  have vT: "?v (hT s l) = 8" if "l \<in> set range_300" for l
    using by_name_handle [OF built_handles(4) [OF b, of l], of example_values] that
    by (simp add: tr example_values_def)
  have vA: "?v (hA s l dy) = (if dy = 1 then 1 else 0)"
    if "l \<in> set range_300" "dy \<in> set days" for l dy
    using by_name_handle [OF built_handles(6) [OF b, of l dy], of example_values] that
    by (simp add: tr example_values_def)
  have days1: "(\<Sum>dy\<leftarrow>days. ?v (hA s l dy)) = 1" if "l \<in> set range_300" for l
    by (rule sum_list_delta [OF days_facts]) (simp add: vA that)
  have days0: "(\<Sum>dy\<leftarrow>days. real (dy - Suc 0) * ?v (hA s l dy)) = 0" if "l \<in> set range_300" for l
  proof -
    have "(\<Sum>dy\<leftarrow>days. real (dy - Suc 0) * ?v (hA s l dy)) = (\<Sum>dy\<leftarrow>days. 0)"
      by (rule arg_cong [where f = sum_list]) (simp add: vA that)
    then show ?thesis by simp
  qed
  have dom: "\<forall>h < length (vars (model s)). in_domain (vars (model s) ! h) (?v h)"
    using by_name_domain [OF f(1) example_values_domain] by blast
  have c1: "\<forall>l \<in> set range_300. holds ?v (capacity_c s [?c] l)"
    by (simp add: capacity_c_def vX vZ)
  have c2: "\<forall>l \<in> set range_300. holds ?v (release_c s ?c l)"
    by (simp add: release_c_def f(5) example_tables vX vT)
  have c3: "\<forall>r < length (List.product [?c] range_300).
       \<forall>c \<in> set (window_c s (List.product [?c] range_300 ! r) (3000 + r)). holds ?v c"
  proof (intro allI impI ballI)
    fix r c
    assume r: "r < length (List.product [?c] range_300)"
      and c: "c \<in> set (window_c s (List.product [?c] range_300 ! r) (3000 + r))"
    from r have r300: "r < 300" by simp
    have p: "List.product [?c] range_300 ! r = (?c, range_300 ! r)"
      using r300 by simp
    have l: "range_300 ! r \<in> set range_300" using r300 by simp
    from built_multiplier [OF b, of r] r
    have "handle (model s) (3000 + r) (multiplier_name ''A'' ''D'' 1 (range_300 ! r))"
      by (simp add: p)
    from by_name_handle [OF this, of example_values]
    have vm: "?v (3000 + r) = 0" by (simp add: example_values_def)
    have ev: "eval_expr ?v (arrival_e s ?c (range_300 ! r) (3000 + r))
        = 8 + (if range_300 ! r = 0 then 1 else 0)"
      by (simp add: arrival_e_def f(7) example_tables vT [OF l] vX [OF l] vm o_def
          days0 [OF l])
    from c have "c \<in> set (window_c s (?c, range_300 ! r) (3000 + r))"
      by (simp only: p)
    then show "holds ?v c"
      by (auto simp: window_c_def ev f(6) example_tables)
  qed
  have c4: "holds ?v (assignment_c s ?c)"
  proof -
    have "(\<Sum>l\<leftarrow>range_300. ?v (hX s ?c l) * ?v (hZ s l)) = 1"
      by (rule sum_list_delta [OF range_300_facts]) (simp add: vX vZ)
    then show ?thesis by (simp add: assignment_c_def f(3) o_def)
  qed
  have c5: "\<forall>dy \<in> set days. holds ?v (sorting_c s [''A''] [1] [?c] ''D'' dy)"
  proof
    fix dy assume dy: "dy \<in> set days"
    have "(\<Sum>l\<leftarrow>range_300. ?v (hX s ?c l) * 10 * ?v (hA s l dy))
        = (if dy = 1 then 10 else 0)"
      by (rule sum_list_delta [OF range_300_facts]) (simp add: vX vA dy)
    then show "holds ?v (sorting_c s [''A''] [1] [?c] ''D'' dy)"
      by (simp add: sorting_c_def sorting_e_def f(3,5,6) example_tables o_def
          concat_map_singleton)
  qed
  have c6: "\<forall>l \<in> set range_300. holds ?v (arrival_day_c s l)"
  proof
    fix l assume l: "l \<in> set range_300"
    have "(\<Sum>dy\<leftarrow>days. ?v (hA s l dy) * ?v (hZ s l)) = 1"
      by (rule sum_list_delta [OF days_facts]) (simp add: vA vZ l)
    then show "holds ?v (arrival_day_c s l)"
      by (simp add: arrival_day_c_def o_def)
  qed
  show ?thesis
    unfolding built_feasible_iff [OF b]
    using dom c1 c2 c3 c4 c5 c6 by simp
qed


lemma sum_list_binary_card:
  assumes "distinct xs" "\<And>x. x \<in> set xs \<Longrightarrow> g x = 0 \<or> g x = (1::real)"
  shows "sum_list (map g xs) = real (card {x \<in> set xs. g x = 1})"
  using assms
proof (induction xs)
  case Nil
  show ?case by simp
next
  case (Cons a xs)
  have fin: "finite {x \<in> set xs. g x = 1}" by simp
  have notin: "a \<notin> {x \<in> set xs. g x = 1}" using Cons.prems(1) by simp
  have ih: "sum_list (map g xs) = real (card {x \<in> set xs. g x = 1})"
    using Cons.prems by (intro Cons.IH) simp_all
  from Cons.prems(2) [of a] have "g a = 0 \<or> g a = 1" by simp
  then show ?case
  proof
    assume a: "g a = 0"
    then have "{x \<in> set (a # xs). g x = 1} = {x \<in> set xs. g x = 1}" by auto
    then show ?thesis by (simp add: a ih)
  next
    assume a: "g a = 1"
    then have "{x \<in> set (a # xs). g x = 1} = insert a {x \<in> set xs. g x = 1}" by auto
    then show ?thesis using fin notin by (simp add: a ih)
  qed
qed

lemma exactly_one:
  assumes "distinct xs" "\<And>x. x \<in> set xs \<Longrightarrow> g x = 0 \<or> g x = (1::real)"
    and "sum_list (map g xs) = 1"
  shows "\<exists>x \<in> set xs. g x = 1 \<and> (\<forall>y \<in> set xs. g y = 1 \<longrightarrow> y = x)"
proof -
  from sum_list_binary_card [OF assms(1,2)] assms(3)
  have "card {x \<in> set xs. g x = 1} = 1" by simp
  then obtain x where x: "{x \<in> set xs. g x = 1} = {x}" by (auto simp: card_1_singleton_iff)
  then have "x \<in> set xs \<and> g x = 1" by auto
  moreover from x have "\<forall>y \<in> set xs. g y = 1 \<longrightarrow> y = x" by auto
  ultimately show ?thesis by blast
qed


subsection \<open>Release hours, windows and counts\<close>

lemma find_filter: "find P xs = Some x \<Longrightarrow> \<exists>ys. filter P xs = x # ys"
  by (induction xs) (auto split: if_splits)

lemma release_time_find:
  "find (\<lambda>r. src_id r = k) df = Some row \<Longrightarrow>
     release_time df k = Inr (hour (src_planned_end_of_loading row))"
  by (auto simp: release_time_def values0_def dest!: find_filter)

lemma built_release:
  assumes "built src dst trk sl d s" "c \<in> set (selection src sl d)" "l \<in> set (trucks s)"
    and "release_time (source_df s) (snd (snd c)) = Inr r"
  shows "Constr (Var (hT s l)) GE (Mul (Const (real r)) (Var (hX s c l))) None
    \<in> set (constrs (model s))"
  using built_constrs(2) [OF assms(1,2,3)] assms(4) by (simp add: release_c_def)









lemma length_window_cs: "length (window_cs b n ps) = 2 * length ps"
  by (induction ps arbitrary: n) (simp_all add: window_cs_Cons window_c_def)

lemma length_concat_release:
  "length (concat (map (\<lambda>c. map (release_c s c) ls) vc)) = length vc * length ls"
  by (induction vc) simp_all

lemma built_counts:
  assumes "built src dst trk sl d s"
  shows "length (vars (model s)) = 600 * length (selection src sl d) + 2700"
    "length (constrs (model s)) = 606 + 901 * length (selection src sl d)"
proof -
  from assms show "length (vars (model s)) = 600 * length (selection src sl d) + 2700"
    by (simp add: built_def)
  from assms have c: "constrs (model s) =
       map (capacity_c s (selection src sl d)) range_300
       @ concat (map (\<lambda>c. map (release_c s c) range_300) (selection src sl d))
       @ window_cs s (300 * length (selection src sl d) + 2700)
           (List.product (selection src sl d) range_300)
       @ map (assignment_c s) (selection src sl d)
       @ map (sorting_c s sl (consignments src (routes sl [d])) (selection src sl d) d) days
       @ map (arrival_day_c s) range_300"
    by (simp add: built_def)
  show "length (constrs (model s)) = 606 + 901 * length (selection src sl d)"
    unfolding c by (simp add: length_window_cs length_concat_release)
qed

lemma build_again_counts:
  assumes ok: "handles_ok s" and t: "source_df s = src"
    "destination_df s = normalized dst" "trucking_df s = trk"
    and tb: "tables_ok src dst trk sl d"
  shows "\<exists>s'. build_again s sl d = Inr s' \<and>
    length (vars (model s')) = length (vars (model s)) + (600 * length (selection src sl d) + 2700) \<and>
    length (constrs (model s')) =
      length (constrs (model s)) + (606 + 901 * length (selection src sl d))"
proof -
  define vc where "vc = selection src sl d"
  define cl where "cl = consignments src (routes sl [d])"
  from initialize_model_post [OF ok, of sl d]
  obtain s0 where init: "initialize_model s sl d = Inr s0"
    and c0: "complete s0 vc" and i0: "initialized s0 sl d"
    and t0: "source_df s0 = src" "destination_df s0 = normalized dst"
      "trucking_df s0 = trk"
    and cs0: "constrs (model s0) = constrs (model s)"
    and v0: "length (vars (model s0)) = length (vars (model s)) + 300 * length vc + 2700"
    unfolding t vc_def by auto
  have tr0: "trucks s0 = range_300" using i0 by (simp add: initialized_def)
  have r0: "ready s0 sl cl vc d"
    using c0 i0 selection_mem(1,4) [of _ src sl d]
    by (fastforce simp: ready_def initialized_def t0 vc_def cl_def)
  have w: "\<forall>c \<in> set vc. window_data s0 c"
    and dr: "\<exists>r \<in> set (destination_df s0). dst_Destination_ID r = d"
    using tb selection_mem(1) [of _ src sl d]
    by (auto simp: window_data_def tables_ok_def t0 vc_def)
  from add_constraints_ready [OF r0 w dr] obtain s' where
    run: "add_constraints s0 = Inr s'"
    and v: "vars (model s') = vars (model s0) @ map multiplier_var (List.product vc (trucks s0))"
    and c: "constrs (model s') = constrs (model s0)
      @ map (capacity_c s0 vc) (trucks s0)
      @ concat (map (\<lambda>c. map (release_c s0 c) (trucks s0)) vc)
      @ window_cs s0 (length (vars (model s0))) (List.product vc (trucks s0))
      @ map (assignment_c s0) vc
      @ map (sorting_c s0 sl cl vc d) days
      @ map (arrival_day_c s0) (trucks s0)"
    by blast
  have "build_again s sl d = Inr s'" by (simp add: build_again_def init run)
  moreover have "length (vars (model s')) = length (vars (model s)) + (600 * length vc + 2700)"
    unfolding v by (simp add: v0 tr0)
  moreover have "length (constrs (model s')) = length (constrs (model s)) + (606 + 901 * length vc)"
    unfolding c by (simp add: cs0 tr0 length_window_cs length_concat_release)
  ultimately show ?thesis unfolding vc_def by blast
qed

lemma dummy_selection [simp]:
  "selection dummy_source_data [''01.1.1.PZ'', ''15.1.1.PZ''] ''PZE1'' = []"
  by (simp add: selection_def combinations_def consignments_def routes_def route_ids_def
      dummy_source_data_def)

lemma dummy_build:
  "\<exists>s. build dummy_source_data dummy_destination_data dummy_trucking_data
     [''01.1.1.PZ'', ''15.1.1.PZ''] ''PZE1'' = Inr s"
proof -
  have "tables_ok dummy_source_data dummy_destination_data dummy_trucking_data
     [''01.1.1.PZ'', ''15.1.1.PZ''] ''PZE1''"
    by (simp add: tables_ok_def normalized_def normalize_row_def
        dummy_destination_data_def)
  with build_cases [of dummy_source_data dummy_destination_data dummy_trucking_data
     "[''01.1.1.PZ'', ''15.1.1.PZ'']" "''PZE1''"]
  show ?thesis by blast
qed

lemma example_destination_rows: "example_destination \<noteq> []"
  by (simp add: example_destination_def)

lemma example_no_lane:
  "\<exists>s. build (example_source m) example_destination [] [''A''] ''D'' = Inl (IndexError, s) \<and>
     3000 \<le> length (vars (model s)) \<and> 600 \<le> length (constrs (model s))"
proof -
  have "\<not> tables_ok (example_source m) example_destination [] [''A''] ''D''"
    by (simp add: tables_ok_def)
  with example_destination_rows show ?thesis
    using build_cases [of "example_source m" example_destination "[]" "[''A'']" "''D''"]
    by auto
qed

section \<open>The claims\<close>

text \<open>
  C10. After \<^verbatim>\<open>normalize_shift_times\<close>, every destination row has
  start \<open>\<le>\<close> end \<open>\<le>\<close> start + 24: the start hour is the raw start hour; when the raw end
  hour is strictly below the raw start hour the end hour is the raw end hour plus 24, and
  otherwise it is the raw end hour.
\<close>

theorem normalize_shift_times_window:
  assumes "raw \<in> set df"
    and "valid_clock (raw_Start_of_shift raw)"
    and "valid_clock (raw_End_of_lay_on raw)"
  shows "(\<exists>rows. normalize_shift_times df = Inr rows \<and> normalize_row raw \<in> set rows)
    \<and> dst_Start_of_shift (normalize_row raw) \<le> dst_End_of_lay_on (normalize_row raw)
    \<and> dst_End_of_lay_on (normalize_row raw) \<le> dst_Start_of_shift (normalize_row raw) + 24
    \<and> dst_Start_of_shift (normalize_row raw) = clock_hours (raw_Start_of_shift raw)
    \<and> dst_End_of_lay_on (normalize_row raw) =
        (if clock_hours (raw_End_of_lay_on raw) < clock_hours (raw_Start_of_shift raw)
         then clock_hours (raw_End_of_lay_on raw) + 24
         else clock_hours (raw_End_of_lay_on raw))"
proof -
  note s = clock_hours_bounds [OF assms(2)]
  note e = clock_hours_bounds [OF assms(3)]
  from assms(1) have "df \<noteq> []" by auto
  then have "normalize_shift_times df = Inr (map normalize_row df)"
    by (simp add: normalize_shift_times_def)
  moreover have "normalize_row raw \<in> set (map normalize_row df)"
    using assms(1) by simp
  ultimately
  have "\<exists>rows. normalize_shift_times df = Inr rows \<and> normalize_row raw \<in> set rows"
    by blast
  with s e show ?thesis
    by (simp add: normalize_row_def normalize_def Let_def)
qed

theorem normalize_shift_times_window_witness:
  "\<lparr>raw_Destination_ID = ''D'', raw_Start_of_shift = \<lparr>hour = 22, minute = 30\<rparr>,
     raw_End_of_lay_on = \<lparr>hour = 6, minute = 0\<rparr>, raw_Sorting_capacity = 20\<rparr>
     \<in> set [\<lparr>raw_Destination_ID = ''D'', raw_Start_of_shift = \<lparr>hour = 22, minute = 30\<rparr>,
         raw_End_of_lay_on = \<lparr>hour = 6, minute = 0\<rparr>, raw_Sorting_capacity = 20\<rparr>] \<and>
   valid_clock \<lparr>hour = 22, minute = 30\<rparr> \<and> valid_clock \<lparr>hour = 6, minute = 0\<rparr> \<and>
   normalize_shift_times
     [\<lparr>raw_Destination_ID = ''D'', raw_Start_of_shift = \<lparr>hour = 22, minute = 30\<rparr>,
       raw_End_of_lay_on = \<lparr>hour = 6, minute = 0\<rparr>, raw_Sorting_capacity = 20\<rparr>]
   = Inr [\<lparr>dst_Destination_ID = ''D'', dst_Start_of_shift = 45 / 2,
        dst_End_of_lay_on = 30, dst_Sorting_capacity = 20\<rparr>] \<and>
   (45 / 2 :: real) \<le> 30 \<and> (30 :: real) \<le> 45 / 2 + 24"
  using normalize_shift_times_window
    [of "\<lparr>raw_Destination_ID = ''D'', raw_Start_of_shift = \<lparr>hour = 22, minute = 30\<rparr>,
          raw_End_of_lay_on = \<lparr>hour = 6, minute = 0\<rparr>, raw_Sorting_capacity = 20\<rparr>"
        "[\<lparr>raw_Destination_ID = ''D'', raw_Start_of_shift = \<lparr>hour = 22, minute = 30\<rparr>,
          raw_End_of_lay_on = \<lparr>hour = 6, minute = 0\<rparr>, raw_Sorting_capacity = 20\<rparr>]"]
  by (simp add: normalize_shift_times_def normalize_row_def normalize_def
      clock_hours_def valid_clock_def)


text \<open>
  C8. In every feasible solution of the built model every truck of the pool is used: the
  arrival-day constraint is added for every truck and cannot hold when \<open>Z\<close> is 0.
\<close>

theorem every_truck_used:
  assumes "build src dst trk sl d = Inr s" and "feasible (model s) v"
    and "l \<in> set (trucks s)"
  shows "trucks s = [0..<300] \<and> (\<exists>z. Z s l = Some z \<and> v z = 1)"
proof -
  note b = build_Inr_built(1) [OF assms(1)]
  from built_facts(3) [OF b] have "trucks s = [0..<300]" by (simp add: range_300_def)
  moreover from built_handles(1) [OF b assms(3)] truck_used [OF b assms(2,3)]
  have "\<exists>z. Z s l = Some z \<and> v z = 1" by blast
  ultimately show ?thesis by blast
qed


theorem every_truck_used_witness:
  "\<exists>s. build (example_source 30) example_destination example_trucking [''A''] ''D'' = Inr s \<and>
     feasible (model s) (by_name s example_values) \<and> 0 \<in> set (trucks s) \<and>
     trucks s = [0..<300] \<and> (\<exists>z. Z s 0 = Some z \<and> by_name s example_values z = 1)"
proof -
  from example_build [of 30] obtain s where
    b: "build (example_source 30) example_destination example_trucking [''A''] ''D'' = Inr s"
    by blast
  note f = example_feasible [OF b]
  have l: "0 \<in> set (trucks s)"
    by (simp add: built_facts(3) [OF build_Inr_built(1) [OF b]] range_300_facts)
  from every_truck_used [OF b f l] b f l show ?thesis by blast
qed

text \<open>
  C1. For every valid (route, consignment) of the built model, every feasible solution
  has exactly one truck whose \<open>X\<close> for that pair is 1, and that truck has \<open>Z = 1\<close>.
\<close>

theorem exactly_one_assignment:
  assumes "build src dst trk sl d = Inr s" and "feasible (model s) v"
    and "valid_combinations s = Some vc" and "(i, j, k) \<in> set vc"
  shows "\<exists>l \<in> set (trucks s). \<exists>x z.
      map_of (X s) (i, j, k, l) = Some x \<and> v x = 1 \<and> Z s l = Some z \<and> v z = 1 \<and>
      (\<forall>l' \<in> set (trucks s). \<forall>x'.
         map_of (X s) (i, j, k, l') = Some x' \<and> v x' = 1 \<longrightarrow> l' = l)"
proof -
  note b = build_Inr_built(1) [OF assms(1)]
  let ?c = "(i, j, k)"
  from assms(3,4) built_facts(4) [OF b] have c: "?c \<in> set (selection src sl d)" by simp
  have t: "trucks s = range_300" by (rule built_facts(3) [OF b])
  have bin: "v (hX s ?c l) = 0 \<or> v (hX s ?c l) = 1" if "l \<in> set (trucks s)" for l
    using feasible_binary [OF assms(2) built_handles(8) [OF b that c]]
    by (simp add: declared_def)
  from feasible_constr [OF assms(2) built_constrs(3) [OF b c]]
  have "(\<Sum>l\<leftarrow>trucks s. v (hX s ?c l) * v (hZ s l)) = 1"
    by (simp add: assignment_c_def o_def)
  moreover have "(\<Sum>l\<leftarrow>trucks s. v (hX s ?c l) * v (hZ s l)) = (\<Sum>l\<leftarrow>trucks s. v (hX s ?c l))"
    by (rule arg_cong [where f = sum_list]) (simp add: truck_used [OF b assms(2)])
  ultimately have one: "(\<Sum>l\<leftarrow>trucks s. v (hX s ?c l)) = 1" by simp
  have "distinct (trucks s)" by (simp add: t range_300_facts)
  from exactly_one [OF this bin one] obtain l where l: "l \<in> set (trucks s)"
    and x1: "v (hX s ?c l) = 1"
    and u: "\<forall>l' \<in> set (trucks s). v (hX s ?c l') = 1 \<longrightarrow> l' = l"
    by blast
  have hx: "map_of (X s) (i, j, k, l') = Some (hX s ?c l')" if "l' \<in> set (trucks s)" for l'
    using built_handles(7) [OF b that c] by simp
  show ?thesis
  proof (intro bexI [of _ l] exI conjI ballI allI impI)
    show "map_of (X s) (i, j, k, l) = Some (hX s ?c l)" by (rule hx [OF l])
    show "v (hX s ?c l) = 1" by (rule x1)
    show "Z s l = Some (hZ s l)" by (rule built_handles(1) [OF b l])
    show "v (hZ s l) = 1" by (rule truck_used [OF b assms(2) l])
    show "l \<in> set (trucks s)" by (rule l)
  next
    fix l' x' assume l': "l' \<in> set (trucks s)"
      and "map_of (X s) (i, j, k, l') = Some x' \<and> v x' = 1"
    with hx [OF l'] have "v (hX s ?c l') = 1" by simp
    with u l' show "l' = l" by blast
  qed
qed

theorem exactly_one_assignment_witness:
  "\<exists>s. build (example_source 30) example_destination example_trucking [''A''] ''D'' = Inr s \<and>
     feasible (model s) (by_name s example_values) \<and>
     valid_combinations s = Some [(''A'', ''D'', 1)] \<and>
     (\<exists>l \<in> set (trucks s). \<exists>x z.
        map_of (X s) (''A'', ''D'', 1, l) = Some x \<and> by_name s example_values x = 1 \<and>
        Z s l = Some z \<and> by_name s example_values z = 1 \<and>
        (\<forall>l' \<in> set (trucks s). \<forall>x'.
           map_of (X s) (''A'', ''D'', 1, l') = Some x' \<and> by_name s example_values x' = 1
           \<longrightarrow> l' = l))"
proof -
  from example_build [of 30] obtain s where
    b: "build (example_source 30) example_destination example_trucking [''A''] ''D'' = Inr s"
    by blast
  note f = example_feasible [OF b]
  have vc: "valid_combinations s = Some [(''A'', ''D'', 1)]"
    using built_facts(4) [OF build_Inr_built(1) [OF b]] by simp
  from exactly_one_assignment [OF b f vc, of "''A''" "''D''" 1] b f vc
  show ?thesis by (intro exI [of _ s]) simp
qed




text \<open>
  C9. The release bound of the model is the hour of \<^verbatim>\<open>planned_end_of_loading\<close> of the
  first row with the consignment's id; the minutes are not read. In the example run the
  consignment is released at 08:\<open>m\<close> and, for every minute \<open>m\<close> up to 59, the solution
  that sends the loaded truck at 8 is feasible.
\<close>

theorem release_bound_is_whole_hour:
  assumes "build src dst trk sl d = Inr s" and "valid_combinations s = Some vc"
    and "(i, j, k) \<in> set vc" and "l \<in> set (trucks s)"
    and "find (\<lambda>r. src_id r = k) (source_df s) = Some row"
  shows "(\<exists>t x. T s l = Some t \<and> map_of (X s) (i, j, k, l) = Some x \<and>
       Constr (Var t) GE
         (Mul (Const (real (hour (src_planned_end_of_loading row)))) (Var x)) None
         \<in> set (constrs (model s)) \<and>
       (\<forall>v. feasible (model s) v \<and> v x = 1 \<longrightarrow>
          real (hour (src_planned_end_of_loading row)) \<le> v t)) \<and>
     (\<forall>m < 60. \<exists>s' v t x.
        build (example_source m) example_destination example_trucking [''A''] ''D'' = Inr s' \<and>
        map (\<lambda>r. clock_hours (src_planned_end_of_loading r)) (source_df s')
          = [8 + real m / 60] \<and>
        feasible (model s') v \<and> T s' 0 = Some t \<and>
        map_of (X s') (''A'', ''D'', 1, 0) = Some x \<and> v x = 1 \<and> v t = 8)"
proof
  note b = build_Inr_built(1) [OF assms(1)]
  let ?c = "(i, j, k)"
  let ?r = "hour (src_planned_end_of_loading row)"
  from assms(2,3) built_facts(4) [OF b] have c: "?c \<in> set (selection src sl d)" by simp
  have r: "release_time (source_df s) k = Inr ?r" by (rule release_time_find [OF assms(5)])
  have m: "Constr (Var (hT s l)) GE (Mul (Const (real ?r)) (Var (hX s ?c l))) None
      \<in> set (constrs (model s))"
    using built_release [OF b c assms(4)] r by simp
  have "\<forall>v. feasible (model s) v \<and> v (hX s ?c l) = 1 \<longrightarrow> real ?r \<le> v (hT s l)"
  proof (intro allI impI)
    fix v assume "feasible (model s) v \<and> v (hX s ?c l) = 1"
    with feasible_constr [OF _ m, of v] show "real ?r \<le> v (hT s l)" by simp
  qed
  with built_handles(3) [OF b assms(4)] built_handles(7) [OF b assms(4) c] m
  show "\<exists>t x. T s l = Some t \<and> map_of (X s) (i, j, k, l) = Some x \<and>
       Constr (Var t) GE (Mul (Const (real ?r)) (Var x)) None \<in> set (constrs (model s)) \<and>
       (\<forall>v. feasible (model s) v \<and> v x = 1 \<longrightarrow> real ?r \<le> v t)"
    by (intro exI [of _ "hT s l"] exI [of _ "hX s ?c l"]) simp
next
  show "\<forall>m < 60. \<exists>s' v t x.
        build (example_source m) example_destination example_trucking [''A''] ''D'' = Inr s' \<and>
        map (\<lambda>r. clock_hours (src_planned_end_of_loading r)) (source_df s')
          = [8 + real m / 60] \<and>
        feasible (model s') v \<and> T s' 0 = Some t \<and>
        map_of (X s') (''A'', ''D'', 1, 0) = Some x \<and> v x = 1 \<and> v t = 8"
  proof (intro allI impI)
    fix m :: nat assume "m < 60"
    from example_build [of m] obtain s' where
      b: "build (example_source m) example_destination example_trucking [''A''] ''D'' = Inr s'"
      by blast
    note bt = build_Inr_built(1) [OF b]
    have l: "0 \<in> set (trucks s')" by (simp add: built_facts(3) [OF bt] range_300_facts)
    have c: "(''A'', ''D'', 1) \<in> set (selection (example_source m) [''A''] ''D'')" by simp
    have src: "map (\<lambda>r. clock_hours (src_planned_end_of_loading r)) (source_df s')
          = [8 + real m / 60]"
      by (simp add: built_facts(5) [OF bt] example_source_def clock_hours_def)
    have x1: "by_name s' example_values (hX s' (''A'', ''D'', 1) 0) = 1"
      using by_name_handle [OF built_handles(8) [OF bt l c], of example_values]
      by (simp add: example_values_def)
    have t8: "by_name s' example_values (hT s' 0) = 8"
      using by_name_handle [OF built_handles(4) [OF bt l], of example_values]
      by (simp add: example_values_def)
    from b src example_feasible [OF b] built_handles(3) [OF bt l]
      built_handles(7) [OF bt l c] x1 t8
    show "\<exists>s' v t x.
        build (example_source m) example_destination example_trucking [''A''] ''D'' = Inr s' \<and>
        map (\<lambda>r. clock_hours (src_planned_end_of_loading r)) (source_df s')
          = [8 + real m / 60] \<and>
        feasible (model s') v \<and> T s' 0 = Some t \<and>
        map_of (X s') (''A'', ''D'', 1, 0) = Some x \<and> v x = 1 \<and> v t = 8"
      by (intro exI [of _ s'] exI [of _ "by_name s' example_values"]
          exI [of _ "hT s' 0"] exI [of _ "hX s' (''A'', ''D'', 1) 0"]) simp
  qed
qed


theorem release_bound_is_whole_hour_witness:
  "\<exists>s. build (example_source 59) example_destination example_trucking [''A''] ''D'' = Inr s \<and>
     valid_combinations s = Some [(''A'', ''D'', 1)] \<and> 0 \<in> set (trucks s) \<and>
     find (\<lambda>r. src_id r = 1) (source_df s) =
       Some \<lparr>src_id = 1, src_Origin_ID = ''A'', src_Destination_ID = ''D'',
             src_planned_end_of_loading = \<lparr>hour = 8, minute = 59\<rparr>,
             src_Consignment_quantity = 10\<rparr> \<and>
     (\<exists>t x. T s 0 = Some t \<and> map_of (X s) (''A'', ''D'', 1, 0) = Some x \<and>
        Constr (Var t) GE (Mul (Const 8) (Var x)) None \<in> set (constrs (model s)))"
proof -
  from example_build [of 59] obtain s where
    b: "build (example_source 59) example_destination example_trucking [''A''] ''D'' = Inr s"
    by blast
  note bt = build_Inr_built(1) [OF b]
  have vc: "valid_combinations s = Some [(''A'', ''D'', 1)]"
    using built_facts(4) [OF bt] by simp
  have l: "0 \<in> set (trucks s)" by (simp add: built_facts(3) [OF bt] range_300_facts)
  have fd: "find (\<lambda>r. src_id r = 1) (source_df s) =
       Some \<lparr>src_id = 1, src_Origin_ID = ''A'', src_Destination_ID = ''D'',
             src_planned_end_of_loading = \<lparr>hour = 8, minute = 59\<rparr>,
             src_Consignment_quantity = 10\<rparr>"
    by (simp add: built_facts(5) [OF bt] example_source_def)
  from release_bound_is_whole_hour [OF b vc _ l fd, of "''A''" "''D''"]
  have "\<exists>t x. T s 0 = Some t \<and> map_of (X s) (''A'', ''D'', 1, 0) = Some x \<and>
        Constr (Var t) GE (Mul (Const 8) (Var x)) None \<in> set (constrs (model s))"
    by auto
  with b vc l fd show ?thesis by blast
qed

text \<open>
  C2. When the solver's status is \<^verbatim>\<open>INFEASIBLE\<close>, \<^verbatim>\<open>solve\<close> prints its message and then
  reads \<^verbatim>\<open>df_out\<close>, which only the other branch assigns: it raises
  \<^verbatim>\<open>UnboundLocalError\<close>. An error of the solver itself is not caught either.
\<close>

theorem solve_infeasible_raises:
  "solve s (Optimize_returns INFEASIBLE sol) = Inl UnboundLocalError \<and>
   solve s Optimize_raises = Inl GurobiError"
  by (simp add: solve_def)

text \<open>
  C3. The arrival-day constraint is added for every truck, used or not, with \<open>Z\<close> as a
  factor: a solution that leaves a truck unused violates it, whatever its arrival-day
  indicators are.
\<close>

theorem unused_truck_infeasible:
  assumes "build src dst trk sl d = Inr s" and "l \<in> set (trucks s)"
    and "Z s l = Some z" and "v z = 0"
  shows "\<not> feasible (model s) v"
proof
  assume f: "feasible (model s) v"
  note b = build_Inr_built(1) [OF assms(1)]
  from built_handles(1) [OF b assms(2)] assms(3) have "hZ s l = z" by simp
  with truck_used [OF b f assms(2)] assms(4) show False by simp
qed

theorem unused_truck_infeasible_witness:
  "\<exists>s z. build (example_source 30) example_destination example_trucking [''A''] ''D'' = Inr s \<and>
     5 \<in> set (trucks s) \<and> Z s 5 = Some z \<and>
     ((by_name s example_values) (z := 0)) z = 0 \<and>
     feasible (model s) (by_name s example_values) \<and>
     \<not> feasible (model s) ((by_name s example_values) (z := 0))"
proof -
  from example_build [of 30] obtain s where
    b: "build (example_source 30) example_destination example_trucking [''A''] ''D'' = Inr s"
    by blast
  note bt = build_Inr_built(1) [OF b]
  have l: "5 \<in> set (trucks s)" by (simp add: built_facts(3) [OF bt] set_range_300)
  note z = built_handles(1) [OF bt l]
  have "\<not> feasible (model s) ((by_name s example_values) (hZ s 5 := 0))"
    by (rule unused_truck_infeasible [OF b l z]) simp
  with b l z example_feasible [OF b] show ?thesis
    by (intro exI [of _ s] exI [of _ "hZ s 5"]) simp
qed





text \<open>
  C6, as the code has it. On a destination table without rows \<^verbatim>\<open>normalize_shift_times\<close>
  raises \<^verbatim>\<open>ValueError\<close>, before any variable or constraint exists. On a table with rows,
  when the destination has no row in it, or the route of some valid (route, consignment)
  has no row in the lane table, the build does not complete either: \<^verbatim>\<open>add_constraints\<close>
  raises \<^verbatim>\<open>IndexError\<close>, and it does so during the construction, once the variables and
  the capacity and release-time constraints are in the model. Otherwise the build
  completes. No valid pair is skipped.
\<close>

theorem missing_data_raises:
  "if dst = []
   then \<exists>s. build src dst trk sl d = Inl (ValueError, s) \<and>
          valid_combinations s = None \<and> vars (model s) = [] \<and> constrs (model s) = []
   else if (\<exists>r \<in> set dst. raw_Destination_ID r = d) \<and>
      (\<forall>(i, j, k) \<in> set (selection src sl d).
         \<exists>r \<in> set trk. trk_Origin_ID r = i \<and> trk_Destination_ID r = j)
   then \<exists>s. build src dst trk sl d = Inr s \<and>
          valid_combinations s = Some (selection src sl d)
   else \<exists>s. build src dst trk sl d = Inl (IndexError, s) \<and>
          valid_combinations s = Some (selection src sl d) \<and>
          300 * length (selection src sl d) + 2700 \<le> length (vars (model s)) \<and>
          300 + 300 * length (selection src sl d) \<le> length (constrs (model s))"
proof (cases "dst = []")
  case True
  then show ?thesis by (simp add: build_empty)
next
  case False
  have "(\<exists>r \<in> set (normalized dst). dst_Destination_ID r = d) \<longleftrightarrow>
      (\<exists>r \<in> set dst. raw_Destination_ID r = d)"
    by (simp add: normalized_def normalize_row_def)
  then have "tables_ok src dst trk sl d \<longleftrightarrow>
      (\<exists>r \<in> set dst. raw_Destination_ID r = d) \<and>
      (\<forall>(i, j, k) \<in> set (selection src sl d).
         \<exists>r \<in> set trk. trk_Origin_ID r = i \<and> trk_Destination_ID r = j)"
    using selection_mem(1) [of _ src sl d] by (fastforce simp: tables_ok_def)
  with False build_cases [of src dst trk sl d] built_facts(4) [of src dst trk sl d]
  show ?thesis by (auto split: if_splits)
qed

theorem missing_data_raises_witness:
  "(\<exists>s. build (example_source 30) [] example_trucking [''A''] ''D'' = Inl (ValueError, s) \<and>
      valid_combinations s = None \<and> vars (model s) = [] \<and> constrs (model s) = []) \<and>
   example_destination \<noteq> [] \<and>
   \<not> ((\<exists>r \<in> set example_destination. raw_Destination_ID r = ''D'') \<and>
      (\<forall>(i, j, k) \<in> set (selection (example_source 30) [''A''] ''D'').
         \<exists>r \<in> set []. trk_Origin_ID r = i \<and> trk_Destination_ID r = j)) \<and>
   (\<exists>s. build (example_source 30) example_destination [] [''A''] ''D'' = Inl (IndexError, s) \<and>
      valid_combinations s = Some [(''A'', ''D'', 1)] \<and>
      3000 \<le> length (vars (model s)) \<and> 600 \<le> length (constrs (model s)))"
  using missing_data_raises [of "[]" "example_source 30" example_trucking "[''A'']" "''D''"]
    missing_data_raises [of example_destination "example_source 30" "[]" "[''A'']" "''D''"]
    example_destination_rows
  by simp

theorem missing_lane_counterexample:
  "(''01.1.1.PZ'', ''PZE1'') \<in> set (routes [''01.1.1.PZ'', ''15.1.1.PZ''] [''PZE1'']) \<and>
   travel_time dummy_trucking_data ''01.1.1.PZ'' ''PZE1'' = Inl IndexError \<and>
   \<not> isl (build dummy_source_data dummy_destination_data dummy_trucking_data
      [''01.1.1.PZ'', ''15.1.1.PZ''] ''PZE1'') \<and>
   isl (build (example_source 30) example_destination [] [''A''] ''D'') \<and>
   fst (projl (build (example_source 30) example_destination [] [''A''] ''D'')) = IndexError \<and>
   3000 \<le> length (vars (model (snd (projl
      (build (example_source 30) example_destination [] [''A''] ''D''))))) \<and>
   600 \<le> length (constrs (model (snd (projl
      (build (example_source 30) example_destination [] [''A''] ''D'')))))"
proof -
  have "(''01.1.1.PZ'', ''PZE1'') \<in> set (routes [''01.1.1.PZ'', ''15.1.1.PZ''] [''PZE1''])"
    by (simp add: routes_def)
  moreover have "travel_time dummy_trucking_data ''01.1.1.PZ'' ''PZE1'' = Inl IndexError"
    by (simp add: travel_time_def values0_def dummy_trucking_data_def)
  moreover from dummy_build have
    "\<not> isl (build dummy_source_data dummy_destination_data dummy_trucking_data
      [''01.1.1.PZ'', ''15.1.1.PZ''] ''PZE1'')"
    by auto
  moreover from example_no_lane [of 30] obtain s where
    "build (example_source 30) example_destination [] [''A''] ''D'' = Inl (IndexError, s)"
    "3000 \<le> length (vars (model s))" "600 \<le> length (constrs (model s))"
    by blast
  ultimately show ?thesis by simp
qed

text \<open>
  C7, as the code has it. A build on a new optimizer object is a function of the tables
  and the selection: its model has 600 variables for every valid (route, consignment)
  and 2700 more, and 901 constraints for every valid (route, consignment) and 606 more.
\<close>

theorem build_counts:
  assumes "build src dst trk sl d = Inr s"
  shows "valid_combinations s = Some (selection src sl d) \<and>
    length (vars (model s)) = 600 * length (selection src sl d) + 2700 \<and>
    length (constrs (model s)) = 606 + 901 * length (selection src sl d) \<and>
    (\<forall>s'. build src dst trk sl d = Inr s' \<longrightarrow> s' = s)"
  using built_counts [OF build_Inr_built(1) [OF assms]]
    built_facts(4) [OF build_Inr_built(1) [OF assms]] assms
  by simp

theorem build_counts_witness:
  "\<exists>s. build (example_source 30) example_destination example_trucking [''A''] ''D'' = Inr s \<and>
     valid_combinations s = Some [(''A'', ''D'', 1)] \<and>
     length (vars (model s)) = 3300 \<and> length (constrs (model s)) = 1507"
proof -
  from example_build [of 30] obtain s where
    b: "build (example_source 30) example_destination example_trucking [''A''] ''D'' = Inr s"
    by blast
  from build_counts [OF b] b show ?thesis by simp
qed

theorem build_again_counterexample:
  "\<not> isl (build (example_source 30) example_destination example_trucking [''A''] ''D'') \<and>
   \<not> isl (build_again
      (projr (build (example_source 30) example_destination example_trucking [''A''] ''D''))
      [''A''] ''D'') \<and>
   length (vars (model
      (projr (build (example_source 30) example_destination example_trucking [''A''] ''D''))))
     = 3300 \<and>
   length (vars (model (projr (build_again
      (projr (build (example_source 30) example_destination example_trucking [''A''] ''D''))
      [''A''] ''D'')))) = 6600 \<and>
   length (constrs (model
      (projr (build (example_source 30) example_destination example_trucking [''A''] ''D''))))
     = 1507 \<and>
   length (constrs (model (projr (build_again
      (projr (build (example_source 30) example_destination example_trucking [''A''] ''D''))
      [''A''] ''D'')))) = 3014"
proof -
  from example_build [of 30] obtain s where
    b: "build (example_source 30) example_destination example_trucking [''A''] ''D'' = Inr s"
    by blast
  note bt = build_Inr_built(1) [OF b]
  note f = built_facts [OF bt]
  note n = built_counts [OF bt]
  from build_again_counts [OF f(1,5,6,7) example_tables_ok [of 30]] obtain s' where
    "build_again s [''A''] ''D'' = Inr s'"
    "length (vars (model s')) = length (vars (model s)) + 3300"
    "length (constrs (model s')) = length (constrs (model s)) + 1507"
    by auto
  with b n show ?thesis by simp
qed

end
